theory Spec2Isabelle
  imports Main "HOL-Library.Sublist" "HOL-Library.AList"
begin

section \<open>Values, strings and the store\<close>

text \<open>
  Python strings are modelled as \<^typ>\<open>string\<close>, one \<^typ>\<open>char\<close> per code point below 256
  (Latin-1); text outside that range is not covered by the model. Python integers are
  \<^typ>\<open>int\<close>. JSON values (what \<^verbatim>\<open>json.loads\<close> returns and what the tools return as
  dictionaries) are the datatype below; a dictionary is an association list in insertion
  order. JSON numbers with a fraction are not represented.
\<close>

datatype jval =
    JNull
  | JBool bool
  | JInt int
  | JStr string
  | JList "jval list"
  | JObj "(string \<times> jval) list"

text \<open>Python truthiness (\<^verbatim>\<open>if x\<close>, \<^verbatim>\<open>x or y\<close>) of a JSON value.\<close>

fun truthy :: "jval \<Rightarrow> bool" where
  "truthy JNull = False"
| "truthy (JBool b) = b"
| "truthy (JInt i) = (i \<noteq> 0)"
| "truthy (JStr s) = (s \<noteq> [])"
| "truthy (JList xs) = (xs \<noteq> [])"
| "truthy (JObj kvs) = (kvs \<noteq> [])"

text \<open>\<^verbatim>\<open>str(n)\<close> for an integer.\<close>

fun str_nat :: "nat \<Rightarrow> string" where
  "str_nat n =
     (if n < 10 then [char_of (48 + n)]
      else str_nat (n div 10) @ [char_of (48 + n mod 10)])"

definition str_int :: "int \<Rightarrow> string" where
  "str_int i = (if i < 0 then CHR ''-'' # str_nat (nat (- i)) else str_nat (nat i))"

text \<open>\<^verbatim>\<open>w in s\<close> for strings: \<open>w\<close> occurs in \<open>s\<close> as a contiguous substring.\<close>

fun contains :: "string \<Rightarrow> string \<Rightarrow> bool" where
  "contains w [] = (w = [])"
| "contains w (c # cs) = (prefix w (c # cs) \<or> contains w cs)"

text \<open>
  \<^verbatim>\<open>str.isspace\<close> on one code point below 256, which is also what \<^verbatim>\<open>\s\<close> matches in a
  \<^verbatim>\<open>str\<close> pattern and what \<^verbatim>\<open>str.strip()\<close> removes.
\<close>

definition isspace :: "char \<Rightarrow> bool" where
  "isspace c =
     (c \<in> set [CHR 0x09, CHR 0x0A, CHR 0x0B, CHR 0x0C, CHR 0x0D, CHR 0x1C, CHR 0x1D,
                CHR 0x1E, CHR 0x1F, CHR 0x20, CHR 0x85, CHR 0xA0])"

definition strip :: "string \<Rightarrow> string" where
  "strip s = rev (dropWhile isspace (rev (dropWhile isspace s)))"

text \<open>\<^verbatim>\<open>str.lower()\<close> on code points below 256.\<close>

definition lower_char :: "char \<Rightarrow> char" where
  "lower_char c =
     (let n = (of_char c :: nat)
      in if (65 \<le> n \<and> n \<le> 90) \<or> (192 \<le> n \<and> n \<le> 222 \<and> n \<noteq> 215)
         then char_of (n + 32) else c)"

definition lower :: "string \<Rightarrow> string" where
  "lower s = map lower_char s"

subsection \<open>Tables\<close>

text \<open>
  The rows of the four tables the services touch. Timestamps (\<^verbatim>\<open>created_at\<close>,
  \<^verbatim>\<open>updated_at\<close>) come from the wall clock and are left out, from the rows and from the
  dictionaries the tools return. The store is what the request's database session sees;
  primary keys are handed out by a counter per table, and the store itself never fails.
\<close>

record task =
  t_id :: int
  t_title :: string
  t_description :: "string option"
  t_completed :: bool
  t_user_id :: int

record conversation =
  c_id :: int
  c_user_id :: int

text \<open>One entry of the list \<^verbatim>\<open>tool_invocations\<close> that \<^verbatim>\<open>AgentService.chat\<close> returns.\<close>

record invocation =
  inv_tool :: string
  inv_inputs :: "(string \<times> jval) list"
  inv_outputs :: "jval option"
  inv_error :: "string option"

record message =
  m_id :: int
  m_conversation_id :: int
  m_role :: string
  m_content :: string
  m_sequence_number :: int
  m_tool_invocations :: "invocation list option"

record tool_invocation_log =
  l_id :: int
  l_user_id :: int
  l_message_id :: "int option"
  l_tool_name :: string
  l_inputs :: "(string \<times> jval) list"
  l_outputs :: "jval option"
  l_success :: bool
  l_error_message :: "string option"

record db =
  tasks :: "task list"
  conversations :: "conversation list"
  message_rows :: "message list"
  tool_invocation_logs :: "tool_invocation_log list"
  task_seq :: int
  conversation_seq :: int
  message_seq :: int
  log_seq :: int

definition empty_db :: db where
  "empty_db = \<lparr>tasks = [], conversations = [], message_rows = [], tool_invocation_logs = [],
     task_seq = 0, conversation_seq = 0, message_seq = 0, log_seq = 0\<rparr>"

section \<open>The tools (\<^verbatim>\<open>services/mcp_tools.py\<close>)\<close>

text \<open>
  A tool returns \<open>Inr\<close> of its result dictionary, or \<open>Inl\<close> of the text of the
  \<^verbatim>\<open>ValueError\<close> it raises, together with the store it leaves behind.
\<close>

type_synonym tool_result = "(string + jval) \<times> db"

definition task_dict :: "task \<Rightarrow> jval" where
  "task_dict t = JObj
     [(''task_id'', JInt (t_id t)),
      (''title'', JStr (t_title t)),
      (''description'', (case t_description t of None \<Rightarrow> JNull | Some d \<Rightarrow> JStr d)),
      (''completed'', JBool (t_completed t))]"

definition create_task :: "string \<Rightarrow> int \<Rightarrow> db \<Rightarrow> string option \<Rightarrow> tool_result" where
  "create_task title user_id s description =
     (if title = [] \<or> length title > 500
      then (Inl ''Title must be between 1 and 500 characters'', s)
      else if (case description of None \<Rightarrow> False | Some d \<Rightarrow> d \<noteq> [] \<and> length d > 5000)
      then (Inl ''Description must be less than 5000 characters'', s)
      else
        let t = \<lparr>t_id = task_seq s + 1, t_title = title, t_description = description,
                 t_completed = False, t_user_id = user_id\<rparr>
        in (Inr (task_dict t), s\<lparr>tasks := tasks s @ [t], task_seq := task_seq s + 1\<rparr>))"

definition list_tasks :: "int \<Rightarrow> db \<Rightarrow> bool option \<Rightarrow> tool_result" where
  "list_tasks user_id s completed =
     (let rows = filter (\<lambda>t. t_user_id t = user_id) (tasks s);
          rows' = (case completed of None \<Rightarrow> rows
                   | Some b \<Rightarrow> filter (\<lambda>t. t_completed t = b) rows);
          task_list = map task_dict rows'
      in (Inr (JObj [(''tasks'', JList task_list),
                     (''total_count'', JInt (int (length task_list)))]), s))"

text \<open>
  \<^verbatim>\<open>select(Task).where(Task.id == task_id, Task.user_id == user_id)\<close> followed by
  \<^verbatim>\<open>scalar_one_or_none()\<close>: no row, the one row, or the failure on several rows.

  \<^verbatim>\<open>update_task\<close> assigns the new title to the row before it checks the description. When
  that check raises, the handler for \<^verbatim>\<open>ValueError\<close> re-raises without a rollback, so the
  new title stays in the session: the queries that follow see it, and the next commit of
  the request (the endpoint commits the assistant message after every turn) writes it.
  The model, whose store is the session's view, keeps the new title in that case. It
  does not tell flushed rows from committed ones: a rollback later in the same request,
  which would discard that title, is not modelled. This concerns rows of the caller only.
\<close>

definition owned :: "int \<Rightarrow> int \<Rightarrow> task \<Rightarrow> bool" where
  "owned task_id user_id t = (t_id t = task_id \<and> t_user_id t = user_id)"

definition store_task :: "int \<Rightarrow> int \<Rightarrow> task \<Rightarrow> db \<Rightarrow> db" where
  "store_task task_id user_id t' s =
     s\<lparr>tasks := map (\<lambda>t. if owned task_id user_id t then t' else t) (tasks s)\<rparr>"

definition update_task ::
  "int \<Rightarrow> int \<Rightarrow> db \<Rightarrow> string option \<Rightarrow> string option \<Rightarrow> bool option \<Rightarrow> tool_result" where
  "update_task task_id user_id s title description completed =
     (case filter (owned task_id user_id) (tasks s) of
        [] \<Rightarrow> (Inl (''Task '' @ str_int task_id @ '' not found or does not belong to user''), s)
      | [t] \<Rightarrow>
          if (case title of None \<Rightarrow> False | Some x \<Rightarrow> x = [] \<or> length x > 500)
          then (Inl ''Title must be between 1 and 500 characters'', s)
          else
            let t1 = (case title of None \<Rightarrow> t | Some x \<Rightarrow> t\<lparr>t_title := x\<rparr>)
            in if (case description of None \<Rightarrow> False | Some d \<Rightarrow> length d > 5000)
               then (Inl ''Description must be less than 5000 characters'',
                     store_task task_id user_id t1 s)
               else
                 let t2 = (case description of None \<Rightarrow> t1
                           | Some d \<Rightarrow> t1\<lparr>t_description := Some d\<rparr>);
                     t3 = (case completed of None \<Rightarrow> t2 | Some b \<Rightarrow> t2\<lparr>t_completed := b\<rparr>)
                 in (Inr (task_dict t3), store_task task_id user_id t3 s)
      | _ \<Rightarrow> (Inl ''Failed to update task: Multiple rows were found when one or none was required'', s))"

definition delete_task :: "int \<Rightarrow> int \<Rightarrow> db \<Rightarrow> tool_result" where
  "delete_task task_id user_id s =
     (case filter (owned task_id user_id) (tasks s) of
        [] \<Rightarrow> (Inl (''Task '' @ str_int task_id @ '' not found or does not belong to user''), s)
      | [t] \<Rightarrow>
          (Inr (JObj [(''success'', JBool True),
                      (''message'', JStr ''Task deleted successfully''),
                      (''deleted_task_id'', JInt task_id)]),
           s\<lparr>tasks := filter (\<lambda>t. \<not> owned task_id user_id t) (tasks s)\<rparr>)
      | _ \<Rightarrow> (Inl ''Failed to delete task: Multiple rows were found when one or none was required'', s))"

section \<open>The agent service (\<^verbatim>\<open>services/agent.py\<close>)\<close>

subsection \<open>Dispatching a tool call\<close>

text \<open>
  \<^verbatim>\<open>tool_func(user_id=user_id, db=db, **tool_args)\<close>: the keyword arguments the provider
  sent are bound to the parameters of the tool. Python raises \<^verbatim>\<open>TypeError\<close> at the call
  when \<^verbatim>\<open>tool_args\<close> repeats \<^verbatim>\<open>user_id\<close> or \<^verbatim>\<open>db\<close>, names a parameter the tool does
  not have, or omits a required one. The texts of these interpreter errors are paraphrased.
\<close>

definition bind_error :: "string \<Rightarrow> (string \<times> jval) list \<Rightarrow> string list \<Rightarrow> string list \<Rightarrow> string option" where
  "bind_error fname tool_args required optional =
     (case filter (\<lambda>k. k \<in> set [''user_id'', ''db'']) (map fst tool_args) of
        k # _ \<Rightarrow> Some (fname @ ''() got multiple values for keyword argument '' @ k)
      | [] \<Rightarrow>
         (case filter (\<lambda>k. k \<notin> set (required @ optional)) (map fst tool_args) of
            k # _ \<Rightarrow> Some (fname @ ''() got an unexpected keyword argument '' @ k)
          | [] \<Rightarrow>
             (case filter (\<lambda>k. k \<notin> set (map fst tool_args)) required of
                k # _ \<Rightarrow> Some (fname @ ''() missing required argument '' @ k)
              | [] \<Rightarrow> None)))"

text \<open>
  Python does not check the annotations \<^verbatim>\<open>title: str\<close>, \<^verbatim>\<open>task_id: int\<close>,
  \<^verbatim>\<open>completed: Optional[bool]\<close> at the call. A value of another JSON type makes the tool
  raise further on (in its own test of the title, in \<^verbatim>\<open>len\<close>, or when the value is bound
  for the database), and the tool's handlers turn that into a \<^verbatim>\<open>ValueError\<close> after a
  rollback. The model reports it when the arguments are bound, with the store unchanged.
  JSON \<^verbatim>\<open>null\<close> for an optional parameter is Python's \<^verbatim>\<open>None\<close>. For \<^verbatim>\<open>completed\<close> the
  integers 0 and 1 pass as well: the boolean column takes them for \<^verbatim>\<open>False\<close> and \<^verbatim>\<open>True\<close>
  (in Python \<^verbatim>\<open>0 == False\<close> and \<^verbatim>\<open>1 == True\<close>) and the tool runs; any other integer is
  refused. A JSON boolean given for \<^verbatim>\<open>task_id\<close> counts as ill-typed: the query compares
  the integer column with a boolean constant, which the database (PostgreSQL, going by the
  pool settings of \<^verbatim>\<open>core/database.py\<close>) refuses.
\<close>

fun opt_str :: "jval option \<Rightarrow> string option option" where
  "opt_str None = Some None"
| "opt_str (Some JNull) = Some None"
| "opt_str (Some (JStr x)) = Some (Some x)"
| "opt_str (Some _) = None"

fun opt_bool :: "jval option \<Rightarrow> bool option option" where
  "opt_bool None = Some None"
| "opt_bool (Some JNull) = Some None"
| "opt_bool (Some (JBool b)) = Some (Some b)"
| "opt_bool (Some (JInt i)) =
     (if i = 0 then Some (Some False) else if i = 1 then Some (Some True) else None)"
| "opt_bool (Some _) = None"

definition ill_typed :: "string \<Rightarrow> string" where
  "ill_typed what = ''Failed to '' @ what @ '': argument of the wrong type''"

definition call_create_task :: "(string \<times> jval) list \<Rightarrow> int \<Rightarrow> db \<Rightarrow> tool_result" where
  "call_create_task tool_args user_id s =
     (case bind_error ''create_task'' tool_args [''title''] [''description''] of
        Some e \<Rightarrow> (Inl e, s)
      | None \<Rightarrow>
         (case (map_of tool_args ''title'', opt_str (map_of tool_args ''description'')) of
            (Some (JStr title), Some description) \<Rightarrow> create_task title user_id s description
          | _ \<Rightarrow> (Inl (ill_typed ''create task''), s)))"

definition call_list_tasks :: "(string \<times> jval) list \<Rightarrow> int \<Rightarrow> db \<Rightarrow> tool_result" where
  "call_list_tasks tool_args user_id s =
     (case bind_error ''list_tasks'' tool_args [] [''completed''] of
        Some e \<Rightarrow> (Inl e, s)
      | None \<Rightarrow>
         (case opt_bool (map_of tool_args ''completed'') of
            Some completed \<Rightarrow> list_tasks user_id s completed
          | None \<Rightarrow> (Inl (ill_typed ''list tasks''), s)))"

definition call_update_task :: "(string \<times> jval) list \<Rightarrow> int \<Rightarrow> db \<Rightarrow> tool_result" where
  "call_update_task tool_args user_id s =
     (case bind_error ''update_task'' tool_args [''task_id'']
             [''title'', ''description'', ''completed''] of
        Some e \<Rightarrow> (Inl e, s)
      | None \<Rightarrow>
         (case (map_of tool_args ''task_id'', opt_str (map_of tool_args ''title''),
                opt_str (map_of tool_args ''description''),
                opt_bool (map_of tool_args ''completed'')) of
            (Some (JInt task_id), Some title, Some description, Some completed) \<Rightarrow>
              update_task task_id user_id s title description completed
          | _ \<Rightarrow> (Inl (ill_typed ''update task''), s)))"

definition call_delete_task :: "(string \<times> jval) list \<Rightarrow> int \<Rightarrow> db \<Rightarrow> tool_result" where
  "call_delete_task tool_args user_id s =
     (case bind_error ''delete_task'' tool_args [''task_id''] [] of
        Some e \<Rightarrow> (Inl e, s)
      | None \<Rightarrow>
         (case map_of tool_args ''task_id'' of
            Some (JInt task_id) \<Rightarrow> delete_task task_id user_id s
          | _ \<Rightarrow> (Inl (ill_typed ''delete task''), s)))"

text \<open>
  \<^verbatim>\<open>AgentService._execute_tool\<close>: the lookup in \<^verbatim>\<open>tool_map\<close>, the call, and the handler
  that turns every exception into \<^verbatim>\<open>{"outputs": None, "error": str(e)}\<close>. The result is
  the pair of the two dictionary entries and the store.
\<close>

definition tool_map :: "(string \<times> ((string \<times> jval) list \<Rightarrow> int \<Rightarrow> db \<Rightarrow> tool_result)) list" where
  "tool_map =
     [(''create_task'', call_create_task),
      (''list_tasks'', call_list_tasks),
      (''update_task'', call_update_task),
      (''delete_task'', call_delete_task)]"

definition execute_tool ::
  "string \<Rightarrow> (string \<times> jval) list \<Rightarrow> int \<Rightarrow> db \<Rightarrow> (jval option \<times> string option) \<times> db" where
  "execute_tool tool_name tool_args user_id s =
     (case map_of tool_map tool_name of
        None \<Rightarrow> ((None, Some (''Unknown tool: '' @ tool_name)), s)
      | Some tool_func \<Rightarrow>
         (case tool_func tool_args user_id s of
            (Inr result, s') \<Rightarrow> ((Some result, None), s')
          | (Inl e, s') \<Rightarrow> ((None, Some e), s')))"

subsection \<open>Regular expressions of the fallback\<close>

text \<open>
  The two patterns of the fallback use literals, \<^verbatim>\<open>\s\<close>, \<^verbatim>\<open>.\<close>, \<^verbatim>\<open>$\<close>, alternation,
  the greedy \<^verbatim>\<open>?\<close>, \<^verbatim>\<open>*\<close> and \<^verbatim>\<open>+\<close>, the lazy \<^verbatim>\<open>+?\<close> and one capturing group. The
  matcher below is the backtracking matcher of Python's \<^verbatim>\<open>re\<close> for this fragment: it
  returns every way the pattern matches at the start of the text, as the remaining text
  and the text of group 1, in the order in which backtracking tries them. Repetition is
  only needed over a character class.
\<close>

datatype rx =
    Lit string
  | Eos
  | Seq rx rx
  | Alt rx rx
  | Opt rx
  | Star "char \<Rightarrow> bool"
  | Plus "char \<Rightarrow> bool"
  | LazyPlus "char \<Rightarrow> bool"
  | Group rx

text \<open>The texts left after one, two, ... characters of the class, fewest first.\<close>

fun after_class :: "(char \<Rightarrow> bool) \<Rightarrow> string \<Rightarrow> string list" where
  "after_class p [] = []"
| "after_class p (c # cs) = (if p c then cs # after_class p cs else [])"

definition no_group :: "string list \<Rightarrow> (string \<times> string option) list" where
  "no_group rs = map (\<lambda>r. (r, None)) rs"

fun rmatch :: "rx \<Rightarrow> string \<Rightarrow> (string \<times> string option) list" where
  "rmatch (Lit w) s = (if prefix w s then [(drop (length w) s, None)] else [])"
| "rmatch Eos s = (if s = [] \<or> s = [CHR 0x0A] then [(s, None)] else [])"
| "rmatch (Seq a b) s =
     concat (map (\<lambda>(r, g). map (\<lambda>(r', g'). (r', case g' of None \<Rightarrow> g | Some x \<Rightarrow> Some x))
                              (rmatch b r))
                 (rmatch a s))"
| "rmatch (Alt a b) s = rmatch a s @ rmatch b s"
| "rmatch (Opt a) s = rmatch a s @ [(s, None)]"
| "rmatch (Star p) s = no_group (rev (after_class p s) @ [s])"
| "rmatch (Plus p) s = no_group (rev (after_class p s))"
| "rmatch (LazyPlus p) s = no_group (after_class p s)"
| "rmatch (Group a) s =
     map (\<lambda>(r, g). (r, Some (take (length s - length r) s))) (rmatch a s)"

text \<open>
  \<^verbatim>\<open>re.search\<close>: the first match at the leftmost position that has one; the result is
  group 1 of that match.
\<close>

fun re_search :: "rx \<Rightarrow> string \<Rightarrow> string option option" where
  "re_search p [] = (case rmatch p [] of [] \<Rightarrow> None | (r, g) # _ \<Rightarrow> Some g)"
| "re_search p (c # cs) =
     (case rmatch p (c # cs) of [] \<Rightarrow> re_search p cs | (r, g) # _ \<Rightarrow> Some g)"

text \<open>
  \<^verbatim>\<open>re.sub(p, '', s)\<close>: every match, leftmost first and not overlapping, is removed. An
  empty match removes nothing, and the scan moves on by one character.
\<close>

function re_sub :: "rx \<Rightarrow> string \<Rightarrow> string" where
  "re_sub p s =
     (case rmatch p s of
        (r, g) # _ \<Rightarrow>
          if length r < length s then re_sub p r
          else (case s of [] \<Rightarrow> [] | c # cs \<Rightarrow> c # re_sub p cs)
      | [] \<Rightarrow> (case s of [] \<Rightarrow> [] | c # cs \<Rightarrow> c # re_sub p cs))"
  by pat_completeness auto
termination
  by (relation "measure (\<lambda>(p, s). length s)") auto

text \<open>\<^verbatim>\<open>w|v|...\<close>, an alternation of literals.\<close>

fun alts :: "string \<Rightarrow> string list \<Rightarrow> rx" where
  "alts w [] = Lit w"
| "alts w (v # vs) = Alt (Lit w) (alts v vs)"

subsection \<open>The rule-based fallback\<close>

text \<open>
  The pattern
  \<^verbatim>\<open>(?:create|add|make|new)\s+(?:a\s+)?(?:task\s+(?:to|called|for)\s+|to\s+)?(.+?)(?:\.|$)\<close>
  and the pattern \<^verbatim>\<open>\s*(please|now|today|tomorrow)\s*$\<close>.
\<close>

definition not_newline :: "char \<Rightarrow> bool" where
  "not_newline c = (c \<noteq> CHR 0x0A)"

definition title_pattern :: rx where
  "title_pattern =
     Seq (alts ''create'' [''add'', ''make'', ''new''])
    (Seq (Plus isspace)
    (Seq (Opt (Seq (Lit ''a'') (Plus isspace)))
    (Seq (Opt (Alt (Seq (Lit ''task'')
                   (Seq (Plus isspace)
                   (Seq (alts ''to'' [''called'', ''for''])
                        (Plus isspace))))
                   (Seq (Lit ''to'') (Plus isspace))))
    (Seq (Group (LazyPlus not_newline))
         (Alt (Lit ''.'') Eos)))))"

definition filler_pattern :: rx where
  "filler_pattern =
     Seq (Star isspace)
    (Seq (Group (alts ''please'' [''now'', ''today'', ''tomorrow'']))
    (Seq (Star isspace) Eos))"

text \<open>
  The title heuristic of the create branch. A match whose group 1 is unset would raise in
  \<^verbatim>\<open>match.group(1).strip()\<close>; the handler around the heuristic then puts the default title.
\<close>

definition extract_title :: "string \<Rightarrow> string" where
  "extract_title message_content =
     (case re_search title_pattern message_content of
        None \<Rightarrow> ''sample task''
      | Some None \<Rightarrow> ''sample task''
      | Some (Some g) \<Rightarrow>
          let title = strip g;
              title = strip (re_sub filler_pattern title)
          in if title = [] \<or> length (strip title) = 0 then ''sample task'' else title)"

definition is_greeting :: "string \<Rightarrow> bool" where
  "is_greeting message_content =
     (contains ''hello'' message_content \<or> contains ''hi'' message_content
      \<or> contains ''hey'' message_content)"

definition any_word :: "string list \<Rightarrow> string \<Rightarrow> bool" where
  "any_word ws message_content = list_ex (\<lambda>w. contains w message_content) ws"

definition is_create :: "string \<Rightarrow> bool" where
  "is_create = any_word [''create'', ''add'', ''make'', ''new'']"

definition is_list :: "string \<Rightarrow> bool" where
  "is_list = any_word [''show'', ''list'', ''view'', ''see'', ''my tasks'']"

definition is_update :: "string \<Rightarrow> bool" where
  "is_update = any_word [''update'', ''complete'', ''done'', ''finish'']"

definition is_delete :: "string \<Rightarrow> bool" where
  "is_delete = any_word [''delete'', ''remove'']"

definition apostrophe :: string where
  "apostrophe = [CHR 0x27]"

definition greeting_reply :: string where
  "greeting_reply =
     ''Hello! I'' @ apostrophe @ ''m your AI task assistant. You can ask me to create, list, update, or delete tasks.''"

definition update_reply :: string where
  "update_reply =
     ''I can help you update tasks. Please specify which task you'' @ apostrophe
       @ ''d like to update and what changes to make.''"

definition delete_reply :: string where
  "delete_reply =
     ''I can help you delete tasks. Please specify which task you'' @ apostrophe
       @ ''d like to delete.''"

text \<open>Reading the dictionary \<^verbatim>\<open>list_tasks\<close> returned.\<close>

fun jget :: "string \<Rightarrow> jval \<Rightarrow> jval" where
  "jget k (JObj kvs) = (case map_of kvs k of None \<Rightarrow> JNull | Some v \<Rightarrow> v)"
| "jget k _ = JNull"

fun jlist :: "jval \<Rightarrow> jval list" where
  "jlist (JList xs) = xs"
| "jlist _ = []"

fun jstr :: "jval \<Rightarrow> string" where
  "jstr (JStr x) = x"
| "jstr _ = []"

fun task_lines :: "nat \<Rightarrow> jval list \<Rightarrow> string" where
  "task_lines i [] = []"
| "task_lines i (t # ts) =
     [CHR 0x0A] @ str_nat i @ ''. '' @ jstr (jget ''title'' t) @ '' (''
       @ (if truthy (jget ''completed'' t) then ''completed'' else ''not completed'') @ '')''
       @ task_lines (Suc i) ts"

subsection \<open>The provider\<close>

text \<open>
  A tool call as the provider returns it. The field \<open>tc_arguments\<close> stands for the text
  \<^verbatim>\<open>tool_call.function.arguments\<close> through what \<^verbatim>\<open>json.loads\<close> makes of it: \<open>None\<close> when
  the text is not JSON, the decoded value otherwise.
\<close>

record tool_call =
  tc_id :: string
  tc_name :: string
  tc_arguments :: "jval option"

text \<open>The messages sent to the provider: plain turns, the assistant's request for tools,
  and one result turn per tool call.\<close>

datatype provider_message =
    Plain string string
  | AssistantCalls string "tool_call list"
  | ToolResult string jval

text \<open>
  The provider is outside the program. A call either fails (any exception of the client,
  or a response without a first choice) or yields the first choice's message: its content,
  which may be absent, and its tool calls. The second call is made without the tool
  catalogue and only its content is read.

  Every call of \<^verbatim>\<open>client.chat.completions.create\<close> is an event in the outside world. The
  provider therefore has a state of its own, of any type \<open>'p\<close>: a call takes the state
  in which it is made and returns the state it leaves, and the program threads the state
  through its calls in the order in which it makes them. The state after a turn thus tells
  which calls were made.
\<close>

datatype plan_outcome = PlanFailed | PlanMessage "string option" "tool_call list"

datatype ground_outcome = GroundFailed | GroundMessage "string option"

record 'p provider =
  plan :: "'p \<Rightarrow> provider_message list \<Rightarrow> plan_outcome \<times> 'p"
  ground :: "'p \<Rightarrow> provider_message list \<Rightarrow> ground_outcome \<times> 'p"

definition nl :: string where
  "nl = [CHR 0x0A]"

definition SYSTEM_PROMPT :: string where
  \<open>SYSTEM_PROMPT =
     ''You are a helpful task management assistant. Users can ask you to create, view, update, or delete their tasks using natural language.'' @ nl @
     nl @
     ''Available tools:'' @ nl @
     ''- create_task(title, description): Create a new task with a title and optional description'' @ nl @
     ''- list_tasks(completed): Show all tasks for the user (optionally filter by completion status)'' @ nl @
     ''- update_task(task_id, title, description, completed): Update a task's properties'' @ nl @
     ''- delete_task(task_id): Remove a task'' @ nl @
     nl @
     ''Guidelines:'' @ nl @
     ''- Be concise and friendly in your responses'' @ nl @
     ''- Always confirm actions after executing them (e.g., "I've created a task 'buy groceries' for you")'' @ nl @
     ''- If the user's intent is unclear, ask clarifying questions'' @ nl @
     ''- If a task reference is ambiguous (e.g., "complete the task" when multiple tasks exist), ask which task they mean'' @ nl @
     ''- Always use tools to perform task operations - never make up data or pretend to complete actions'' @ nl @
     ''- If a tool call fails, explain the error to the user in simple terms'' @ nl @
     nl @
     ''Examples:'' @ nl @
     ''User: "Create a task to buy groceries"'' @ nl @
     ''Assistant: [calls create_task] "I've created a task 'buy groceries' for you."'' @ nl @
     nl @
     ''User: "Show my tasks"'' @ nl @
     ''Assistant: [calls list_tasks] "You have 3 tasks: 1. Buy groceries, 2. Call dentist, 3. Finish report"'' @ nl @
     nl @
     ''User: "Mark the groceries task as done"'' @ nl @
     ''Assistant: [calls update_task] "I've marked 'buy groceries' as completed. Great job!"'' @ nl\<close>

subsection \<open>\<^verbatim>\<open>AgentService.chat\<close>\<close>

text \<open>
  The loop over the tool calls. \<open>None\<close> is an exception that leaves the loop:
  \<^verbatim>\<open>json.loads\<close> on arguments that are not JSON, or the dictionary display
  \<^verbatim>\<open>{**tool_args, "user_id": user_id}\<close> on arguments that are not a JSON object (for these
  \<^verbatim>\<open>_execute_tool\<close> has already caught the \<^verbatim>\<open>TypeError\<close> of its own call and touched
  nothing).
\<close>

fun run_tool_calls ::
  "tool_call list \<Rightarrow> int \<Rightarrow> db \<Rightarrow> invocation list \<Rightarrow> invocation list option \<times> db" where
  "run_tool_calls [] user_id s tool_invocations = (Some tool_invocations, s)"
| "run_tool_calls (tc # tcs) user_id s tool_invocations =
     (case tc_arguments tc of
        Some (JObj tool_args) \<Rightarrow>
          (case execute_tool (tc_name tc) tool_args user_id s of
             ((outputs, error), s') \<Rightarrow>
               run_tool_calls tcs user_id s'
                 (tool_invocations @
                   [\<lparr>inv_tool = tc_name tc,
                     inv_inputs = AList.update ''user_id'' (JInt user_id) tool_args,
                     inv_outputs = outputs,
                     inv_error = error\<rparr>]))
      | _ \<Rightarrow> (None, s))"

definition tool_message :: "tool_call \<times> invocation \<Rightarrow> provider_message" where
  "tool_message = (\<lambda>(tc, inv).
     ToolResult (tc_id tc)
       (case inv_outputs inv of
          Some v \<Rightarrow> if truthy v then v
                    else JObj [(''error'', case inv_error inv of None \<Rightarrow> JNull | Some e \<Rightarrow> JStr e)]
        | None \<Rightarrow> JObj [(''error'', case inv_error inv of None \<Rightarrow> JNull | Some e \<Rightarrow> JStr e)]))"

text \<open>
  The handler of \<^verbatim>\<open>except Exception\<close>: the rule-based fallback on the last message of the
  history. The result is the reply and the tool invocations, or \<open>None\<close> when the
  handler itself raises (\<^verbatim>\<open>messages[-1]\<close> on an empty history), and the store.
\<close>

definition fallback ::
  "(string \<times> string) list \<Rightarrow> int \<Rightarrow> db \<Rightarrow> (string option \<times> invocation list) option \<times> db" where
  "fallback messages user_id s =
     (let message_content = (if messages = [] then [] else lower (snd (last messages)))
      in
      if is_greeting message_content then (Some (Some greeting_reply, []), s)
      else if is_create message_content then
        (let title = extract_title message_content
         in case create_task title user_id s None of
              (Inr task_result, s') \<Rightarrow>
                (Some (Some (''I'' @ apostrophe @ ''ve created a task '' @ apostrophe @ title
                             @ apostrophe @ '' for you.''),
                       [\<lparr>inv_tool = ''create_task'',
                         inv_inputs = [(''title'', JStr title), (''user_id'', JInt user_id)],
                         inv_outputs = Some task_result,
                         inv_error = None\<rparr>]), s')
            | (Inl e, s') \<Rightarrow>
                (Some (Some (''I had trouble creating the task '' @ apostrophe @ title
                             @ apostrophe @ '': '' @ e),
                       [\<lparr>inv_tool = ''create_task'',
                         inv_inputs = [(''title'', JStr title), (''user_id'', JInt user_id)],
                         inv_outputs = None,
                         inv_error = Some e\<rparr>]), s'))
      else if is_list message_content then
        (case list_tasks user_id s None of
           (Inr tasks_result, s') \<Rightarrow>
             (let task_count = length (jlist (jget ''tasks'' tasks_result));
                  response_text =
                    (if task_count = 0
                     then ''You don'' @ apostrophe
                            @ ''t have any tasks yet. You can create one by asking me to create a task.''
                     else ''You have '' @ str_nat task_count @ '' tasks:''
                            @ task_lines 1 (jlist (jget ''tasks'' tasks_result)))
              in (Some (Some response_text,
                        [\<lparr>inv_tool = ''list_tasks'',
                          inv_inputs = [(''user_id'', JInt user_id)],
                          inv_outputs = Some tasks_result,
                          inv_error = None\<rparr>]), s'))
         | (Inl e, s') \<Rightarrow>
             (Some (Some (''I had trouble listing your tasks: '' @ e),
                    [\<lparr>inv_tool = ''list_tasks'',
                      inv_inputs = [(''user_id'', JInt user_id)],
                      inv_outputs = None,
                      inv_error = Some e\<rparr>]), s'))
      else if is_update message_content then (Some (Some update_reply, []), s)
      else if is_delete message_content then (Some (Some delete_reply, []), s)
      else if messages = [] then (None, s)
      else (Some (Some (''I received your message: '' @ apostrophe @ snd (last messages)
                        @ apostrophe @ '' and I'' @ apostrophe
                        @ ''m ready to help you manage your tasks.''), []), s))"

text \<open>
  \<^verbatim>\<open>AgentService.chat\<close>, started with the provider in state \<open>st\<close>. The third component of
  the result is the state of the provider after the turn.
\<close>

definition chat ::
  "'p provider \<Rightarrow> 'p \<Rightarrow> (string \<times> string) list \<Rightarrow> int \<Rightarrow> db
     \<Rightarrow> (string option \<times> invocation list) option \<times> db \<times> 'p" where
  "chat p st messages user_id s =
     (let full_messages = Plain ''system'' SYSTEM_PROMPT # map (\<lambda>(r, c). Plain r c) messages
      in case plan p st full_messages of
           (PlanFailed, st1) \<Rightarrow>
             (case fallback messages user_id s of (out, s') \<Rightarrow> (out, s', st1))
         | (PlanMessage content tool_calls, st1) \<Rightarrow>
             if tool_calls \<noteq> [] then
               (case run_tool_calls tool_calls user_id s [] of
                  (None, s1) \<Rightarrow>
                    (case fallback messages user_id s1 of (out, s') \<Rightarrow> (out, s', st1))
                | (Some tool_invocations, s1) \<Rightarrow>
                    (let messages_with_tools =
                           full_messages
                           @ [AssistantCalls (case content of None \<Rightarrow> [] | Some c \<Rightarrow> c) tool_calls]
                           @ map tool_message (zip tool_calls tool_invocations)
                     in case ground p st1 messages_with_tools of
                          (GroundFailed, st2) \<Rightarrow>
                            (case fallback messages user_id s1 of (out, s') \<Rightarrow> (out, s', st2))
                        | (GroundMessage response_text, st2) \<Rightarrow>
                            (Some (response_text, tool_invocations), s1, st2)))
             else (Some (content, []), s, st1))"

section \<open>The conversation service (\<^verbatim>\<open>services/conversation.py\<close>)\<close>

text \<open>
  A service function that raises returns \<open>None\<close> (or \<open>Inl\<close> of the error text) and
  leaves the store as it was: its handler rolls the session back. An insert is rejected
  by the database when a foreign key has no target or a text is longer than the column
  declared for it in \<^verbatim>\<open>models/\<close>, and when a column that is not nullable gets no value.
\<close>

definition create_conversation :: "int \<Rightarrow> db \<Rightarrow> conversation \<times> db" where
  "create_conversation user_id s =
     (let conversation = \<lparr>c_id = conversation_seq s + 1, c_user_id = user_id\<rparr>
      in (conversation,
          s\<lparr>conversations := conversations s @ [conversation],
            conversation_seq := conversation_seq s + 1\<rparr>))"

text \<open>\<^verbatim>\<open>db.get(Conversation, conversation_id)\<close>.\<close>

definition get_conversation :: "int \<Rightarrow> db \<Rightarrow> conversation option" where
  "get_conversation conversation_id s =
     find (\<lambda>c. c_id c = conversation_id) (conversations s)"

text \<open>\<^verbatim>\<open>select(func.max(Message.sequence_number)).where(...)\<close>, then \<^verbatim>\<open>scalar()\<close>.\<close>

definition max_sequence_number :: "int \<Rightarrow> db \<Rightarrow> int option" where
  "max_sequence_number conversation_id s =
     (case map m_sequence_number
             (filter (\<lambda>m. m_conversation_id m = conversation_id) (message_rows s)) of
        [] \<Rightarrow> None
      | x # xs \<Rightarrow> Some (fold max xs x))"

text \<open>Python's \<^verbatim>\<open>x or d\<close> for an optional integer \<open>x\<close>: \<^verbatim>\<open>None\<close> and \<^verbatim>\<open>0\<close> are both falsy.\<close>

fun or_int :: "int option \<Rightarrow> int \<Rightarrow> int" where
  "or_int None d = d"
| "or_int (Some n) d = (if n = 0 then d else n)"

definition add_message ::
  "int \<Rightarrow> string \<Rightarrow> string option \<Rightarrow> db \<Rightarrow> invocation list option \<Rightarrow> message option \<times> db" where
  "add_message conversation_id role content s tool_invocations =
     (let max_seq = or_int (max_sequence_number conversation_id s) (- 1);
          next_seq = max_seq + 1
      in case content of
           None \<Rightarrow> (None, s)
         | Some text \<Rightarrow>
             if get_conversation conversation_id s = None \<or> length role > 20 then (None, s)
             else
               let message =
                     \<lparr>m_id = message_seq s + 1,
                      m_conversation_id = conversation_id,
                      m_role = role,
                      m_content = text,
                      m_sequence_number = next_seq,
                      m_tool_invocations =
                        (case tool_invocations of
                           None \<Rightarrow> None
                         | Some invs \<Rightarrow> if invs = [] then None else Some invs)\<rparr>
               in (Some message,
                   s\<lparr>message_rows := message_rows s @ [message],
                     message_seq := message_seq s + 1\<rparr>))"

definition log_tool_invocation ::
  "int \<Rightarrow> string \<Rightarrow> (string \<times> jval) list \<Rightarrow> jval option \<Rightarrow> bool \<Rightarrow> string option \<Rightarrow> db
     \<Rightarrow> int option \<Rightarrow> tool_invocation_log option \<times> db" where
  "log_tool_invocation user_id tool_name inputs outputs success error_message s message_id =
     (if length tool_name > 100
         \<or> (case error_message of None \<Rightarrow> False | Some e \<Rightarrow> length e > 1000)
      then (None, s)
      else
        let log = \<lparr>l_id = log_seq s + 1,
                   l_user_id = user_id,
                   l_message_id = message_id,
                   l_tool_name = tool_name,
                   l_inputs = inputs,
                   l_outputs = (case outputs of None \<Rightarrow> None
                                | Some v \<Rightarrow> if truthy v then Some v else None),
                   l_success = success,
                   l_error_message = error_message\<rparr>
        in (Some log,
            s\<lparr>tool_invocation_logs := tool_invocation_logs s @ [log],
              log_seq := log_seq s + 1\<rparr>))"

text \<open>
  The history of a conversation, after the ownership check. Rows with equal sequence
  numbers come back in an order the database chooses; the model keeps the order of a
  stable sort.
\<close>

definition load_conversation_messages ::
  "int \<Rightarrow> int \<Rightarrow> db \<Rightarrow> nat \<Rightarrow> string + (string \<times> string) list" where
  "load_conversation_messages conversation_id user_id s limit =
     (case get_conversation conversation_id s of
        None \<Rightarrow> Inl ''Conversation not found or does not belong to user''
      | Some conversation \<Rightarrow>
          if c_user_id conversation \<noteq> user_id
          then Inl ''Conversation not found or does not belong to user''
          else
            let found = take limit
                  (sort_key (\<lambda>m. - m_sequence_number m)
                     (filter (\<lambda>m. m_conversation_id m = conversation_id) (message_rows s)))
            in Inr (map (\<lambda>m. (m_role m, m_content m)) (rev found)))"

section \<open>The chat endpoint (\<^verbatim>\<open>api/routes/chat.py\<close>)\<close>

record chat_request =
  req_conversation_id :: "int option"
  req_message :: string

record chat_response =
  resp_conversation_id :: int
  resp_message_id :: int
  resp_response :: string
  resp_tool_invocations :: "invocation list"

text \<open>An \<^verbatim>\<open>HTTPException\<close>: the status code and the error code of its detail.\<close>

datatype http_error = HTTPException nat string

text \<open>The loop that writes the audit trail; \<open>False\<close> when an insert raised.\<close>

fun log_tool_invocations :: "invocation list \<Rightarrow> int \<Rightarrow> int \<Rightarrow> db \<Rightarrow> bool \<times> db" where
  "log_tool_invocations [] user_id message_id s = (True, s)"
| "log_tool_invocations (tool_inv # rest) user_id message_id s =
     (case log_tool_invocation user_id (inv_tool tool_inv) (inv_inputs tool_inv)
             (inv_outputs tool_inv) (inv_error tool_inv = None) (inv_error tool_inv) s
             (Some message_id) of
        (None, s') \<Rightarrow> (False, s')
      | (Some log, s') \<Rightarrow> log_tool_invocations rest user_id message_id s')"

text \<open>
  The endpoint, with the provider in state \<open>st\<close> when the request arrives. Its result is
  the response or the \<^verbatim>\<open>HTTPException\<close>, and the store.
\<close>

definition chat_route ::
  "'p provider \<Rightarrow> 'p \<Rightarrow> chat_request \<Rightarrow> db \<Rightarrow> int \<Rightarrow> (http_error + chat_response) \<times> db" where
  "chat_route p st request s user_id =
     (if req_message request = [] \<or> length (strip (req_message request)) = 0
      then (Inl (HTTPException 400 ''VALIDATION_ERROR''), s)
      else if length (req_message request) > 10000
      then (Inl (HTTPException 400 ''VALIDATION_ERROR''), s)
      else
        case (case req_conversation_id request of
                None \<Rightarrow>
                  (case create_conversation user_id s of
                     (conversation, s0) \<Rightarrow> Some (c_id conversation, [], s0))
              | Some conversation_id \<Rightarrow>
                  (case load_conversation_messages conversation_id user_id s 50 of
                     Inl e \<Rightarrow> None
                   | Inr conversation_history \<Rightarrow>
                       Some (conversation_id, conversation_history, s))) of
          None \<Rightarrow> (Inl (HTTPException 404 ''NOT_FOUND''), s)
        | Some (conversation_id, conversation_history, s0) \<Rightarrow>
           (case add_message conversation_id ''user'' (Some (req_message request)) s0 None of
              (None, s1) \<Rightarrow> (Inl (HTTPException 500 ''INTERNAL_ERROR''), s1)
            | (Some user_message, s1) \<Rightarrow>
               (case chat p st (conversation_history @ [(''user'', req_message request)])
                       user_id s1 of
                  (None, s2, st') \<Rightarrow> (Inl (HTTPException 500 ''AGENT_ERROR''), s2)
                | (Some (response_text, tool_invocations), s2, st') \<Rightarrow>
                   (case add_message conversation_id ''assistant'' response_text s2
                           (Some tool_invocations) of
                      (None, s3) \<Rightarrow> (Inl (HTTPException 500 ''INTERNAL_ERROR''), s3)
                    | (Some assistant_message, s3) \<Rightarrow>
                       (case log_tool_invocations tool_invocations user_id
                               (m_id assistant_message) s3 of
                          (False, s4) \<Rightarrow> (Inl (HTTPException 500 ''INTERNAL_ERROR''), s4)
                        | (True, s4) \<Rightarrow>
                           (Inr \<lparr>resp_conversation_id = conversation_id,
                                 resp_message_id = m_id assistant_message,
                                 resp_response = m_content assistant_message,
                                 resp_tool_invocations = tool_invocations\<rparr>, s4))))))"

section \<open>Notions used in the properties\<close>

text \<open>
  The providers of the examples keep, as their state, the number of calls made to them.
  This one is down: both calls fail.
\<close>

definition unavailable :: "nat provider" where
  "unavailable = \<lparr>plan = (\<lambda>n ms. (PlanFailed, Suc n)),
                   ground = (\<lambda>n ms. (GroundFailed, Suc n))\<rparr>"

text \<open>What \<^verbatim>\<open>chat\<close> sends to the provider first: the system prompt, then the history.\<close>

definition full_messages :: "(string \<times> string) list \<Rightarrow> provider_message list" where
  "full_messages messages = Plain ''system'' SYSTEM_PROMPT # map (\<lambda>(r, c). Plain r c) messages"

text \<open>
  The conversation is not the caller's: \<^verbatim>\<open>db.get\<close> finds no conversation with this id,
  or finds one whose owner is another user.
\<close>

definition foreign :: "int \<Rightarrow> int \<Rightarrow> db \<Rightarrow> bool" where
  "foreign conversation_id user_id s =
     (case get_conversation conversation_id s of
        None \<Rightarrow> True
      | Some conversation \<Rightarrow> c_user_id conversation \<noteq> user_id)"

text \<open>A store in which user 1 owns conversation 1, with one message in it.\<close>

definition two_users_db :: db where
  "two_users_db = empty_db
     \<lparr>conversations := [\<lparr>c_id = 1, c_user_id = 1\<rparr>],
      message_rows := [\<lparr>m_id = 1, m_conversation_id = 1, m_role = ''user'',
                        m_content = ''secret'', m_sequence_number = 0,
                        m_tool_invocations = None\<rparr>],
      conversation_seq := 1, message_seq := 1\<rparr>"

text \<open>The task and the reply of the scenario \<open>Create a task to buy milk\<close>.\<close>


definition buy_milk_task :: "int \<Rightarrow> db \<Rightarrow> task" where
  "buy_milk_task user_id s =
     \<lparr>t_id = task_seq s + 1, t_title = ''buy milk'', t_description = None,
      t_completed = False, t_user_id = user_id\<rparr>"

definition buy_milk_reply :: string where
  "buy_milk_reply = ''I'' @ apostrophe @ ''ve created a task '' @ apostrophe @ ''buy milk''
                      @ apostrophe @ '' for you.''"

text \<open>
  A provider that asks for \<^verbatim>\<open>create_task\<close> with the title \<open>buy milk\<close> and whose second
  call fails.
\<close>

definition buy_milk_call :: tool_call where
  "buy_milk_call = \<lparr>tc_id = ''call_1'', tc_name = ''create_task'',
                     tc_arguments = Some (JObj [(''title'', JStr ''buy milk'')])\<rparr>"

definition grounding_down :: "nat provider" where
  "grounding_down = \<lparr>plan = (\<lambda>n ms. (PlanMessage None [buy_milk_call], Suc n)),
                      ground = (\<lambda>n ms. (GroundFailed, Suc n))\<rparr>"

definition after_first :: db where
  "after_first = empty_db
     \<lparr>tasks := [\<lparr>t_id = 1, t_title = ''buy milk'', t_description = None,
                  t_completed = False, t_user_id = 7\<rparr>], task_seq := 1\<rparr>"

definition after_second :: db where
  "after_second = empty_db
     \<lparr>tasks := [\<lparr>t_id = 1, t_title = ''buy milk'', t_description = None,
                  t_completed = False, t_user_id = 7\<rparr>,
                 \<lparr>t_id = 2, t_title = ''buy milk'', t_description = None,
                  t_completed = False, t_user_id = 7\<rparr>], task_seq := 2\<rparr>"

definition first_invocation :: invocation where
  "first_invocation =
     \<lparr>inv_tool = ''create_task'',
      inv_inputs = [(''title'', JStr ''buy milk''), (''user_id'', JInt 7)],
      inv_outputs = Some (JObj [(''task_id'', JInt 1), (''title'', JStr ''buy milk''),
                                (''description'', JNull), (''completed'', JBool False)]),
      inv_error = None\<rparr>"

definition second_invocation :: invocation where
  "second_invocation =
     \<lparr>inv_tool = ''create_task'',
      inv_inputs = [(''title'', JStr ''buy milk''), (''user_id'', JInt 7)],
      inv_outputs = Some (JObj [(''task_id'', JInt 2), (''title'', JStr ''buy milk''),
                                (''description'', JNull), (''completed'', JBool False)]),
      inv_error = None\<rparr>"

text \<open>
  An invocation carries an outcome: an error text, or else an output that Python takes for
  true (a dictionary with at least one entry).
\<close>

definition has_outcome :: "invocation \<Rightarrow> bool" where
  "has_outcome tool_inv =
     (case inv_error tool_inv of
        Some e \<Rightarrow> True
      | None \<Rightarrow> (case inv_outputs tool_inv of None \<Rightarrow> False | Some v \<Rightarrow> truthy v))"

text \<open>The invariant of an audit record, as the data model states it.\<close>

definition audit_invariant :: "tool_invocation_log \<Rightarrow> bool" where
  "audit_invariant l = (l_success l \<longleftrightarrow> (l_error_message l = None \<and> l_outputs l \<noteq> None))"

text \<open>Two stores that differ at most in the task table and its key counter.\<close>

definition tasks_only :: "db \<Rightarrow> db \<Rightarrow> bool" where
  "tasks_only s s' =
     (conversations s' = conversations s \<and> message_rows s' = message_rows s
      \<and> tool_invocation_logs s' = tool_invocation_logs s
      \<and> conversation_seq s' = conversation_seq s \<and> message_seq s' = message_seq s
      \<and> log_seq s' = log_seq s)"

text \<open>
  A provider that asks for two tools, an \<^verbatim>\<open>update_task\<close> on a task that does not exist and
  then the \<^verbatim>\<open>create_task\<close> above, and whose second call answers.
\<close>

definition update_99_call :: tool_call where
  "update_99_call = \<lparr>tc_id = ''call_0'', tc_name = ''update_task'',
       tc_arguments = Some (JObj [(''task_id'', JInt 99), (''completed'', JBool True)])\<rparr>"

definition failing_then_create :: "nat provider" where
  "failing_then_create =
     \<lparr>plan = (\<lambda>n ms. (PlanMessage None [update_99_call, buy_milk_call], Suc n)),
      ground = (\<lambda>n ms. (GroundMessage (Some ''Done.''), Suc n))\<rparr>"

text \<open>
  The tasks of the users other than \<open>user_id\<close>, and the store as it would be without
  them.
\<close>

definition others :: "int \<Rightarrow> db \<Rightarrow> task list" where
  "others user_id s = filter (\<lambda>t. t_user_id t \<noteq> user_id) (tasks s)"

definition own_view :: "int \<Rightarrow> db \<Rightarrow> db" where
  "own_view user_id s = s\<lparr>tasks := filter (\<lambda>t. t_user_id t = user_id) (tasks s)\<rparr>"

text \<open>
  A store with one task, owned by user 1, and arguments for \<^verbatim>\<open>update_task\<close> that name that
  task and carry a \<^verbatim>\<open>user_id\<close> entry of their own.
\<close>

definition victim_db :: db where
  "victim_db = empty_db
     \<lparr>tasks := [\<lparr>t_id = 1, t_title = ''pay rent'', t_description = None,
                  t_completed = False, t_user_id = 1\<rparr>], task_seq := 1\<rparr>"

definition forged_args :: "(string \<times> jval) list" where
  "forged_args = [(''task_id'', JInt 1), (''user_id'', JInt 1), (''title'', JStr ''hacked'')]"









section \<open>Sequence numbers\<close>

text \<open>
  C1, at the input where the code leaves the claim. On a fresh conversation and with the
  provider down, the turn \<open>hi\<close> stores the user message and then the assistant message.
  The user message gets sequence number 0. For the assistant message the maximum of the
  stored sequence numbers is 0, which \<^verbatim>\<open>result.scalar() or -1\<close> takes for a missing value,
  so the assistant message gets 0 again and not 1.
\<close>

theorem hi_turn_repeats_sequence_number_zero:
  "map (\<lambda>m. (m_role m, m_sequence_number m))
     (message_rows (snd (chat_route unavailable 0
        \<lparr>req_conversation_id = None, req_message = ''hi''\<rparr> empty_db 7)))
   = [(''user'', 0), (''assistant'', 0)]"
  by code_simp

section \<open>Validation in \<^verbatim>\<open>create_task\<close>\<close>

text \<open>
  C8, at the input where the code leaves the claim. A title of three spaces is blank
  after trimming, and \<^verbatim>\<open>create_task\<close> accepts it: the tool tests \<^verbatim>\<open>not title\<close> and the
  length, and does not trim. The task is stored with the blank title, both when the tool
  is called directly and when it is reached through \<^verbatim>\<open>_execute_tool\<close>.
\<close>

theorem create_task_accepts_blank_title:
  "strip ''   '' = []
   \<and> create_task ''   '' 1 empty_db None =
       (Inr (JObj [(''task_id'', JInt 1), (''title'', JStr ''   ''),
                   (''description'', JNull), (''completed'', JBool False)]),
        empty_db\<lparr>tasks := [\<lparr>t_id = 1, t_title = ''   '', t_description = None,
                             t_completed = False, t_user_id = 1\<rparr>],
                  task_seq := 1\<rparr>)
   \<and> fst (execute_tool ''create_task'' [(''title'', JStr ''   '')] 1 empty_db) =
       (Some (JObj [(''task_id'', JInt 1), (''title'', JStr ''   ''),
                    (''description'', JNull), (''completed'', JBool False)]), None)"
  by code_simp

section \<open>Ownership of conversations\<close>

lemma load_foreign:
  "foreign cid u s \<Longrightarrow>
   load_conversation_messages cid u s limit
     = Inl ''Conversation not found or does not belong to user''"
  by (auto simp: foreign_def load_conversation_messages_def split: option.splits)

text \<open>
  C4. When the conversation id names no conversation, or one owned by another user,
  \<^verbatim>\<open>load_conversation_messages\<close> raises its \<^verbatim>\<open>ValueError\<close> and returns no message. The
  endpoint called with that id returns an error and leaves the store exactly as it was,
  so no message has been appended; for a message that passes the endpoint's own
  validation the error is the 404 \<^verbatim>\<open>NOT_FOUND\<close>.
\<close>

theorem foreign_conversation_not_found:
  assumes "foreign cid u s"
  shows "load_conversation_messages cid u s limit
           = Inl ''Conversation not found or does not belong to user''
       \<and> (\<exists>e. chat_route p st \<lparr>req_conversation_id = Some cid, req_message = msg\<rparr> s u
                 = (Inl e, s))
       \<and> (msg \<noteq> [] \<and> strip msg \<noteq> [] \<and> length msg \<le> 10000 \<longrightarrow>
            chat_route p st \<lparr>req_conversation_id = Some cid, req_message = msg\<rparr> s u
              = (Inl (HTTPException 404 ''NOT_FOUND''), s))"
  using load_foreign[OF assms] by (auto simp: chat_route_def)

theorem foreign_conversation_not_found_witness:
  "foreign 1 2 two_users_db
   \<and> load_conversation_messages 1 2 two_users_db 50
       = Inl ''Conversation not found or does not belong to user''
   \<and> load_conversation_messages 1 1 two_users_db 50 = Inr [(''user'', ''secret'')]
   \<and> chat_route unavailable 0 \<lparr>req_conversation_id = Some 1, req_message = ''hi''\<rparr>
         two_users_db 2
       = (Inl (HTTPException 404 ''NOT_FOUND''), two_users_db)"
proof -
  have f: "foreign 1 2 two_users_db" by code_simp
  have v: "''hi'' \<noteq> [] \<and> strip ''hi'' \<noteq> [] \<and> length ''hi'' \<le> 10000" by code_simp
  have o: "load_conversation_messages 1 1 two_users_db 50 = Inr [(''user'', ''secret'')]"
    by code_simp
  from foreign_conversation_not_found
         [OF f, where limit = 50 and p = unavailable and st = 0 and msg = "''hi''"] v o f
  show ?thesis by simp
qed

section \<open>The fallback's classification\<close>

lemma contains_iff_sublist: "contains w s \<longleftrightarrow> sublist w s"
  by (induction s) (auto simp: sublist_Cons_right)

lemma contains_map: "contains w s \<Longrightarrow> contains (map f w) (map f s)"
proof (induction s)
  case Nil
  then show ?case by simp
next
  case (Cons c cs)
  then show ?case
    using map_mono_prefix[of w "c # cs" f] by auto
qed

lemma greeting_words_lower:
  "lower ''hi'' = ''hi''" "lower ''hey'' = ''hey''" "lower ''hello'' = ''hello''"
  by code_simp+

lemma greeting_word_found:
  assumes "w \<in> {''hi'', ''hey'', ''hello''}" and "contains w m \<or> contains w (lower m)"
  shows "is_greeting (lower m)"
proof -
  have "contains w (lower m)"
    using assms contains_map[of w m lower_char] greeting_words_lower
    by (auto simp: lower_def)
  with assms(1) show ?thesis by (auto simp: is_greeting_def)
qed

lemma fallback_greeting:
  "is_greeting (lower m) \<Longrightarrow>
   fallback (h @ [(r, m)]) u s = (Some (Some greeting_reply, []), s)"
  by (simp add: fallback_def)

text \<open>
  How \<^verbatim>\<open>chat\<close> reaches the fallback, and the state in which it leaves the provider: the
  state after the call that failed, or after the first call when the tool loop raised.
\<close>

lemma chat_plan_failed:
  "plan p st (full_messages ms) = (PlanFailed, st1) \<Longrightarrow>
   chat p st ms u s = (fst (fallback ms u s), snd (fallback ms u s), st1)"
  by (simp add: chat_def full_messages_def split: prod.splits)

lemma chat_loop_raised:
  "plan p st (full_messages ms) = (PlanMessage content calls, st1) \<Longrightarrow> calls \<noteq> [] \<Longrightarrow>
   run_tool_calls calls u s [] = (None, s1) \<Longrightarrow>
   chat p st ms u s = (fst (fallback ms u s1), snd (fallback ms u s1), st1)"
  by (simp add: chat_def full_messages_def split: prod.splits)

lemma chat_ground_failed:
  "plan p st (full_messages ms) = (PlanMessage content calls, st1) \<Longrightarrow> calls \<noteq> [] \<Longrightarrow>
   run_tool_calls calls u s [] = (Some invs, s1) \<Longrightarrow>
   ground p st1 (full_messages ms
             @ [AssistantCalls (case content of None \<Rightarrow> [] | Some c \<Rightarrow> c) calls]
             @ map tool_message (zip calls invs)) = (GroundFailed, st2) \<Longrightarrow>
   chat p st ms u s = (fst (fallback ms u s1), snd (fallback ms u s1), st2)"
  by (simp add: chat_def full_messages_def split: prod.splits)

text \<open>
  C10. The greeting test is substring containment on the lowercased message. A message
  in which \<open>hi\<close>, \<open>hey\<close> or \<open>hello\<close> occurs as a substring, before or after
  lowercasing, is answered by the fallback with the fixed greeting and no tool
  invocation, with the store untouched, whatever other keywords it contains; when the
  first provider call fails this is the result of \<^verbatim>\<open>chat\<close>, and the provider is left
  in the state after that one call.
\<close>

theorem greeting_substring_takes_precedence:
  assumes "w \<in> {''hi'', ''hey'', ''hello''}" and "contains w m \<or> contains w (lower m)"
  shows "fallback (h @ [(r, m)]) u s = (Some (Some greeting_reply, []), s)
       \<and> (plan p st (full_messages (h @ [(r, m)])) = (PlanFailed, st1) \<longrightarrow>
            chat p st (h @ [(r, m)]) u s = (Some (Some greeting_reply, []), s, st1))"
  using fallback_greeting[OF greeting_word_found[OF assms], of h r u s]
    chat_plan_failed[of p st "h @ [(r, m)]" st1 u s]
  by simp

theorem greeting_substring_takes_precedence_witness:
  "contains ''hi'' ''delete this task'' \<and> is_delete (lower ''delete this task'')
   \<and> chat unavailable 0 [(''user'', ''delete this task'')] 7 empty_db
       = (Some (Some greeting_reply, []), empty_db, 1)"
proof -
  have a: "''hi'' \<in> {''hi'', ''hey'', ''hello''}" by simp
  have b: "contains ''hi'' ''delete this task''" by code_simp
  have c: "is_delete (lower ''delete this task'')" by code_simp
  have d: "plan unavailable 0 (full_messages ([] @ [(''user'', ''delete this task'')]))
             = (PlanFailed, 1)"
    by (simp add: unavailable_def)
  from greeting_substring_takes_precedence
         [OF a, where m = "''delete this task''" and h = "[]" and r = "''user''" and u = 7
            and s = empty_db and p = unavailable and st = 0 and ?st1.0 = 1] b c d
  show ?thesis by simp
qed

section \<open>Update and delete requests in the fallback\<close>


lemma fallback_update_delete:
  assumes "\<not> is_greeting (lower m)" "\<not> is_create (lower m)" "\<not> is_list (lower m)"
    and "is_update (lower m) \<or> is_delete (lower m)"
  shows "fallback (h @ [(r, m)]) u s
       = (Some (Some (if is_update (lower m) then update_reply else delete_reply), []), s)"
  using assms by (auto simp: fallback_def)

lemma replies_ask:
  "contains ''Please specify which task'' update_reply"
  "contains ''Please specify which task'' delete_reply"
  by code_simp+

text \<open>
  C7. The fallback takes no provider, and \<^verbatim>\<open>chat\<close> makes no provider call once it has
  entered it, whatever the message is: when the first call failed, or the tool loop raised
  after it, the provider is left in the state after that first call, and when the grounding
  call failed, in the state after that second call; the result of \<^verbatim>\<open>chat\<close> is then what
  the fallback returns. For a message that is neither a greeting nor a create nor a list
  request and that holds an update or a delete keyword, the fallback invokes no tool,
  leaves the store as it is, and replies with the request to specify the task.
\<close>

theorem fallback_calls_no_provider_and_defers_update_delete:
  "(\<forall>st1. plan p st (full_messages ms) = (PlanFailed, st1) \<longrightarrow>
       chat p st ms u s = (fst (fallback ms u s), snd (fallback ms u s), st1))
   \<and> (\<forall>content calls s1 st1.
         plan p st (full_messages ms) = (PlanMessage content calls, st1) \<and> calls \<noteq> []
         \<and> run_tool_calls calls u s [] = (None, s1) \<longrightarrow>
         chat p st ms u s = (fst (fallback ms u s1), snd (fallback ms u s1), st1))
   \<and> (\<forall>content calls invs s1 st1 st2.
         plan p st (full_messages ms) = (PlanMessage content calls, st1) \<and> calls \<noteq> []
         \<and> run_tool_calls calls u s [] = (Some invs, s1)
         \<and> ground p st1 (full_messages ms
              @ [AssistantCalls (case content of None \<Rightarrow> [] | Some c \<Rightarrow> c) calls]
              @ map tool_message (zip calls invs)) = (GroundFailed, st2) \<longrightarrow>
         chat p st ms u s = (fst (fallback ms u s1), snd (fallback ms u s1), st2))
   \<and> (\<forall>h r m.
         ms = h @ [(r, m)] \<and> \<not> is_greeting (lower m) \<and> \<not> is_create (lower m)
         \<and> \<not> is_list (lower m) \<and> (is_update (lower m) \<or> is_delete (lower m)) \<longrightarrow>
         fallback ms u s
           = (Some (Some (if is_update (lower m) then update_reply else delete_reply), []), s)
         \<and> contains ''Please specify which task''
              (if is_update (lower m) then update_reply else delete_reply))"
proof -
  have 1: "\<forall>st1. plan p st (full_messages ms) = (PlanFailed, st1) \<longrightarrow>
       chat p st ms u s = (fst (fallback ms u s), snd (fallback ms u s), st1)"
    by (intro allI impI) (rule chat_plan_failed)
  have 2: "\<forall>content calls s1 st1.
         plan p st (full_messages ms) = (PlanMessage content calls, st1) \<and> calls \<noteq> []
         \<and> run_tool_calls calls u s [] = (None, s1) \<longrightarrow>
         chat p st ms u s = (fst (fallback ms u s1), snd (fallback ms u s1), st1)"
    using chat_loop_raised[of p st ms _ _ _ u s] by blast
  have 3: "\<forall>content calls invs s1 st1 st2.
         plan p st (full_messages ms) = (PlanMessage content calls, st1) \<and> calls \<noteq> []
         \<and> run_tool_calls calls u s [] = (Some invs, s1)
         \<and> ground p st1 (full_messages ms
              @ [AssistantCalls (case content of None \<Rightarrow> [] | Some c \<Rightarrow> c) calls]
              @ map tool_message (zip calls invs)) = (GroundFailed, st2) \<longrightarrow>
         chat p st ms u s = (fst (fallback ms u s1), snd (fallback ms u s1), st2)"
    using chat_ground_failed[of p st ms _ _ _ u s] by blast
  have 4: "\<forall>h r m.
         ms = h @ [(r, m)] \<and> \<not> is_greeting (lower m) \<and> \<not> is_create (lower m)
         \<and> \<not> is_list (lower m) \<and> (is_update (lower m) \<or> is_delete (lower m)) \<longrightarrow>
         fallback ms u s
           = (Some (Some (if is_update (lower m) then update_reply else delete_reply), []), s)
         \<and> contains ''Please specify which task''
              (if is_update (lower m) then update_reply else delete_reply)"
    using fallback_update_delete replies_ask by simp
  from 1 2 3 4 show ?thesis by (intro conjI)
qed

theorem fallback_calls_no_provider_and_defers_update_delete_witness:
  "chat unavailable 0 [(''user'', ''Remove the second one'')] 7 empty_db
     = (Some (Some delete_reply, []), empty_db, 1)
   \<and> chat unavailable 0 [(''user'', ''mark it as done'')] 7 empty_db
     = (Some (Some update_reply, []), empty_db, 1)
   \<and> snd (snd (chat unavailable 0 [(''user'', ''hi'')] 7 empty_db)) = 1
   \<and> snd (snd (chat unavailable 0 [(''user'', ''Create a task to buy milk'')] 7 empty_db)) = 1
   \<and> snd (snd (chat unavailable 0 [(''user'', ''show my tasks'')] 7 empty_db)) = 1
   \<and> snd (snd (chat unavailable 0 [(''user'', ''what can you do'')] 7 empty_db)) = 1
   \<and> snd (snd (chat grounding_down 0 [(''user'', ''Create a task to buy milk'')] 7 empty_db)) = 2"
proof -
  let ?m = "''Remove the second one''"
  let ?ms = "[(''user'', ?m)]"
  have c: "?ms = [] @ [(''user'', ?m)] \<and> \<not> is_greeting (lower ?m) \<and> \<not> is_create (lower ?m)
         \<and> \<not> is_list (lower ?m) \<and> (is_update (lower ?m) \<or> is_delete (lower ?m))"
    by code_simp
  have e: "(if is_update (lower ?m) then update_reply else delete_reply) = delete_reply"
    by code_simp
  have g: "plan unavailable 0 (full_messages ?ms) = (PlanFailed, 1)"
    by (simp add: unavailable_def)
  note t = fallback_calls_no_provider_and_defers_update_delete
             [where p = unavailable and st = 0 and ms = ?ms and u = 7 and s = empty_db]
  from t g have "chat unavailable 0 ?ms 7 empty_db
                   = (fst (fallback ?ms 7 empty_db), snd (fallback ?ms 7 empty_db), 1)"
    by blast
  moreover from t c have "fallback ?ms 7 empty_db
      = (Some (Some (if is_update (lower ?m) then update_reply else delete_reply), []), empty_db)"
    by blast
  ultimately have 1: "chat unavailable 0 ?ms 7 empty_db
                        = (Some (Some delete_reply, []), empty_db, 1)"
    by (simp only: e fst_conv snd_conv)
  have 2: "chat unavailable 0 [(''user'', ''mark it as done'')] 7 empty_db
             = (Some (Some update_reply, []), empty_db, 1)"
    by code_simp
  have 3: "snd (snd (chat unavailable 0 [(''user'', ''hi'')] 7 empty_db)) = 1" by code_simp
  have 4: "snd (snd (chat unavailable 0 [(''user'', ''Create a task to buy milk'')] 7 empty_db))
             = 1" by code_simp
  have 5: "snd (snd (chat unavailable 0 [(''user'', ''show my tasks'')] 7 empty_db)) = 1"
    by code_simp
  have 6: "snd (snd (chat unavailable 0 [(''user'', ''what can you do'')] 7 empty_db)) = 1"
    by code_simp
  have 7: "snd (snd (chat grounding_down 0 [(''user'', ''Create a task to buy milk'')] 7 empty_db))
             = 2" by code_simp
  from 1 2 3 4 5 6 7 show ?thesis by (intro conjI)
qed

section \<open>The create branch of the fallback\<close>

lemma buy_milk_classified:
  "\<not> is_greeting (lower ''Create a task to buy milk'')"
  "is_create (lower ''Create a task to buy milk'')"
  "extract_title (lower ''Create a task to buy milk'') = ''buy milk''"
  by code_simp+

lemma fallback_buy_milk:
  "fallback (h @ [(r, ''Create a task to buy milk'')]) u s =
     (Some (Some buy_milk_reply,
            [\<lparr>inv_tool = ''create_task'',
              inv_inputs = [(''title'', JStr ''buy milk''), (''user_id'', JInt u)],
              inv_outputs = Some (task_dict (buy_milk_task u s)),
              inv_error = None\<rparr>]),
      s\<lparr>tasks := tasks s @ [buy_milk_task u s], task_seq := task_seq s + 1\<rparr>)"
  using buy_milk_classified
  by (simp add: fallback_def create_task_def buy_milk_task_def buy_milk_reply_def Let_def)

text \<open>
  C5. When the first provider call fails, leaving the provider in state \<open>st1\<close>, and the
  latest message is
  \<open>Create a task to buy milk\<close>, \<^verbatim>\<open>chat\<close> takes the create branch of the fallback: the
  title extracted is \<open>buy milk\<close>, \<^verbatim>\<open>create_task\<close> is called with it and no description
  and stores the task for the caller, the reply contains \<open>buy milk\<close>, and the one tool
  invocation returned is for \<^verbatim>\<open>create_task\<close> with the task as its output and no error.
\<close>

theorem create_task_to_buy_milk:
  assumes "plan p st (full_messages (h @ [(r, ''Create a task to buy milk'')]))
             = (PlanFailed, st1)"
  shows "chat p st (h @ [(r, ''Create a task to buy milk'')]) u s =
     (Some (Some buy_milk_reply,
            [\<lparr>inv_tool = ''create_task'',
              inv_inputs = [(''title'', JStr ''buy milk''), (''user_id'', JInt u)],
              inv_outputs = Some (task_dict (buy_milk_task u s)),
              inv_error = None\<rparr>]),
      s\<lparr>tasks := tasks s @ [buy_milk_task u s], task_seq := task_seq s + 1\<rparr>, st1)
    \<and> contains ''buy milk'' buy_milk_reply"
proof -
  have "contains ''buy milk'' buy_milk_reply" by code_simp
  then show ?thesis
    using chat_plan_failed[OF assms, of u s] fallback_buy_milk[of h r u s] by simp
qed

theorem create_task_to_buy_milk_witness:
  "chat unavailable 0 [(''user'', ''Create a task to buy milk'')] 7 empty_db =
     (Some (Some buy_milk_reply,
            [\<lparr>inv_tool = ''create_task'',
              inv_inputs = [(''title'', JStr ''buy milk''), (''user_id'', JInt 7)],
              inv_outputs = Some (JObj [(''task_id'', JInt 1), (''title'', JStr ''buy milk''),
                                        (''description'', JNull), (''completed'', JBool False)]),
              inv_error = None\<rparr>]),
      empty_db\<lparr>tasks := [\<lparr>t_id = 1, t_title = ''buy milk'', t_description = None,
                           t_completed = False, t_user_id = 7\<rparr>], task_seq := 1\<rparr>, 1)"
proof -
  have g: "plan unavailable 0 (full_messages ([] @ [(''user'', ''Create a task to buy milk'')]))
             = (PlanFailed, 1)"
    by (simp add: unavailable_def)
  have t: "task_dict (buy_milk_task 7 empty_db)
            = JObj [(''task_id'', JInt 1), (''title'', JStr ''buy milk''),
                   (''description'', JNull), (''completed'', JBool False)]"
    by code_simp
  have d: "empty_db\<lparr>tasks := tasks empty_db @ [buy_milk_task 7 empty_db],
                    task_seq := task_seq empty_db + 1\<rparr>
           = empty_db\<lparr>tasks := [\<lparr>t_id = 1, t_title = ''buy milk'', t_description = None,
                           t_completed = False, t_user_id = 7\<rparr>], task_seq := 1\<rparr>"
    by code_simp
  from create_task_to_buy_milk[OF g, of 7 empty_db] t d show ?thesis by simp
qed

section \<open>Failure of the grounding call\<close>

lemma fallback_at_most_one_aux:
  "(case fst (fallback ms u s) of None \<Rightarrow> True | Some (reply, invs) \<Rightarrow> length invs \<le> 1)"
  by (simp add: fallback_def Let_def split: prod.split sum.split)

lemma fallback_at_most_one:
  "fallback ms u s = (Some (reply, invs), s') \<Longrightarrow> length invs \<le> 1"
  using fallback_at_most_one_aux[of ms u s] by simp

text \<open>
  C9. When the provider asked for tools, the loop over them has run, and the grounding
  call then fails, the result of \<^verbatim>\<open>chat\<close> is the result of the fallback on the store the
  tools left behind: the provider is in the state after its second call, and the
  invocations the loop
  recorded are not in the result, which holds what the fallback returns (at most one
  invocation). The fallback may run a tool for the same message again: in the witness
  the provider's \<^verbatim>\<open>create_task\<close> has stored a task \<open>buy milk\<close>, the fallback stores a
  second one, and only the second invocation is returned and, by the endpoint, written
  to the audit trail.
\<close>

theorem grounding_failure_falls_back:
  assumes "plan p st (full_messages ms) = (PlanMessage content calls, st1)" and "calls \<noteq> []"
    and "run_tool_calls calls u s [] = (Some invs, s1)"
    and "ground p st1 (full_messages ms
             @ [AssistantCalls (case content of None \<Rightarrow> [] | Some c \<Rightarrow> c) calls]
             @ map tool_message (zip calls invs)) = (GroundFailed, st2)"
  shows "chat p st ms u s = (fst (fallback ms u s1), snd (fallback ms u s1), st2)
       \<and> (\<forall>reply returned s'. chat p st ms u s = (Some (reply, returned), s', st2) \<longrightarrow>
             fallback ms u s1 = (Some (reply, returned), s') \<and> length returned \<le> 1)"
proof -
  have c: "chat p st ms u s = (fst (fallback ms u s1), snd (fallback ms u s1), st2)"
    using chat_ground_failed[OF assms] .
  have "fallback ms u s1 = (Some (reply, returned), s') \<and> length returned \<le> 1"
    if "chat p st ms u s = (Some (reply, returned), s', st2)" for reply returned s'
  proof -
    from that c have "fallback ms u s1 = (Some (reply, returned), s')"
      by (simp add: prod_eq_iff)
    then show ?thesis using fallback_at_most_one by blast
  qed
  with c show ?thesis by blast
qed


theorem grounding_failure_falls_back_witness:
  "run_tool_calls [buy_milk_call] 7 empty_db [] = (Some [first_invocation], after_first)
   \<and> chat grounding_down 0 [(''user'', ''Create a task to buy milk'')] 7 empty_db =
     (Some (Some buy_milk_reply, [second_invocation]), after_second, 2)
   \<and> map t_title (tasks after_second) = [''buy milk'', ''buy milk'']
   \<and> inv_outputs first_invocation \<noteq> inv_outputs second_invocation
   \<and> map l_outputs (tool_invocation_logs (snd (chat_route grounding_down 0
          \<lparr>req_conversation_id = None, req_message = ''Create a task to buy milk''\<rparr>
          empty_db 7)))
       = [inv_outputs second_invocation]"
proof -
  let ?ms = "[(''user'', ''Create a task to buy milk'')]"
  have a: "plan grounding_down 0 (full_messages ?ms) = (PlanMessage None [buy_milk_call], 1)"
    by (simp add: grounding_down_def)
  have b: "[buy_milk_call] \<noteq> []" by simp
  have c: "run_tool_calls [buy_milk_call] 7 empty_db [] = (Some [first_invocation], after_first)"
    by code_simp
  have d: "ground grounding_down 1 (full_messages ?ms
             @ [AssistantCalls (case None of None \<Rightarrow> [] | Some c \<Rightarrow> c) [buy_milk_call]]
             @ map tool_message (zip [buy_milk_call] [first_invocation])) = (GroundFailed, 2)"
    by (simp add: grounding_down_def)
  have e: "fallback ?ms 7 after_first
             = (Some (Some buy_milk_reply, [second_invocation]), after_second)"
    by code_simp
  have f: "map t_title (tasks after_second) = [''buy milk'', ''buy milk'']" by code_simp
  have g: "inv_outputs first_invocation \<noteq> inv_outputs second_invocation" by code_simp
  have "chat grounding_down 0 ?ms 7 empty_db
          = (fst (fallback ?ms 7 after_first), snd (fallback ?ms 7 after_first), 2)"
    using grounding_failure_falls_back[OF a b c d] by (rule conjunct1)
  then have h: "chat grounding_down 0 ?ms 7 empty_db
          = (Some (Some buy_milk_reply, [second_invocation]), after_second, 2)"
    by (simp only: e fst_conv snd_conv)
  have k: "map l_outputs (tool_invocation_logs (snd (chat_route grounding_down 0
          \<lparr>req_conversation_id = None, req_message = ''Create a task to buy milk''\<rparr>
          empty_db 7)))
       = [inv_outputs second_invocation]"
    by code_simp
  from c h f g k show ?thesis by (intro conjI)
qed

section \<open>What the tools and the agent leave behind\<close>

lemma truthy_task_dict: "truthy (task_dict t)"
  by (simp add: task_dict_def)

lemma create_task_truthy: "create_task title u s d = (Inr v, s') \<Longrightarrow> truthy v"
  by (auto simp: create_task_def Let_def truthy_task_dict split: if_splits)

lemma list_tasks_truthy: "list_tasks u s c = (Inr v, s') \<Longrightarrow> truthy v"
  by (auto simp: list_tasks_def Let_def)

lemma update_task_truthy: "update_task i u s t d c = (Inr v, s') \<Longrightarrow> truthy v"
  by (auto simp: update_task_def Let_def truthy_task_dict split: list.splits if_splits)

lemma delete_task_truthy: "delete_task i u s = (Inr v, s') \<Longrightarrow> truthy v"
  by (auto simp: delete_task_def split: list.splits)

lemma call_create_task_truthy: "call_create_task a u s = (Inr v, s') \<Longrightarrow> truthy v"
  by (auto simp: call_create_task_def split: option.splits jval.splits dest: create_task_truthy)

lemma call_list_tasks_truthy: "call_list_tasks a u s = (Inr v, s') \<Longrightarrow> truthy v"
  by (auto simp: call_list_tasks_def split: option.splits dest: list_tasks_truthy)

lemma call_update_task_truthy: "call_update_task a u s = (Inr v, s') \<Longrightarrow> truthy v"
  by (auto simp: call_update_task_def split: option.splits jval.splits dest: update_task_truthy)

lemma call_delete_task_truthy: "call_delete_task a u s = (Inr v, s') \<Longrightarrow> truthy v"
  by (auto simp: call_delete_task_def split: option.splits jval.splits dest: delete_task_truthy)

lemma tool_map_cases:
  "map_of tool_map name = Some f \<Longrightarrow>
   f = call_create_task \<or> f = call_list_tasks \<or> f = call_update_task \<or> f = call_delete_task"
  by (auto simp: tool_map_def split: if_splits)

lemma tool_func_truthy:
  "map_of tool_map name = Some f \<Longrightarrow> f a u s = (Inr v, s') \<Longrightarrow> truthy v"
  using tool_map_cases[of name f]
  by (auto dest: call_create_task_truthy call_list_tasks_truthy call_update_task_truthy
        call_delete_task_truthy)

lemma execute_tool_outcome:
  assumes "execute_tool name a u s = ((outputs, error), s')"
  shows "case error of Some e \<Rightarrow> outputs = None
         | None \<Rightarrow> (case outputs of None \<Rightarrow> False | Some v \<Rightarrow> truthy v)"
proof (cases "map_of tool_map name")
  case None
  with assms show ?thesis by (auto simp: execute_tool_def)
next
  case (Some f)
  obtain r s1 where r: "f a u s = (r, s1)" by (cases "f a u s")
  show ?thesis
  proof (cases r)
    case (Inl e)
    with assms Some r show ?thesis by (auto simp: execute_tool_def)
  next
    case (Inr v)
    with assms Some r tool_func_truthy[OF Some, of a u s v s1] show ?thesis
      by (auto simp: execute_tool_def)
  qed
qed


lemma run_tool_calls_outcome:
  "run_tool_calls calls u s acc = (Some invs, s') \<Longrightarrow> list_all has_outcome acc \<Longrightarrow>
   list_all has_outcome invs"
proof (induction calls arbitrary: s acc)
  case Nil
  then show ?case by simp
next
  case (Cons tc tcs)
  from Cons.prems(1) obtain tool_args where a: "tc_arguments tc = Some (JObj tool_args)"
    by (auto split: option.splits jval.splits)
  obtain outputs error s1 where e: "execute_tool (tc_name tc) tool_args u s = ((outputs, error), s1)"
    by (metis surj_pair)
  let ?x = "\<lparr>inv_tool = tc_name tc, inv_inputs = AList.update ''user_id'' (JInt u) tool_args,
             inv_outputs = outputs, inv_error = error\<rparr>"
  have "has_outcome ?x"
    using execute_tool_outcome[OF e] by (auto simp: has_outcome_def split: option.splits)
  with Cons.prems(2) have acc: "list_all has_outcome (acc @ [?x])" by simp
  from Cons.prems(1) a e have "run_tool_calls tcs u s1 (acc @ [?x]) = (Some invs, s')"
    by simp
  from Cons.IH[OF this acc] show ?case .
qed

lemma fallback_outcome_aux:
  "(case fst (fallback ms u s) of None \<Rightarrow> True
    | Some (reply, invs) \<Rightarrow> list_all has_outcome invs)"
  by (simp add: fallback_def Let_def has_outcome_def split: prod.split sum.split,
      auto simp: list_tasks_def Let_def dest: create_task_truthy)

lemma fallback_outcome:
  "fallback ms u s = (Some (reply, invs), s') \<Longrightarrow> list_all has_outcome invs"
  using fallback_outcome_aux[of ms u s] by simp


lemma chat_plain:
  "plan p st (full_messages ms) = (PlanMessage content [], st1) \<Longrightarrow>
   chat p st ms u s = (Some (content, []), s, st1)"
  by (simp add: chat_def full_messages_def)

lemma chat_grounded:
  "plan p st (full_messages ms) = (PlanMessage content calls, st1) \<Longrightarrow> calls \<noteq> [] \<Longrightarrow>
   run_tool_calls calls u s [] = (Some invs, s1) \<Longrightarrow>
   ground p st1 (full_messages ms
             @ [AssistantCalls (case content of None \<Rightarrow> [] | Some c \<Rightarrow> c) calls]
             @ map tool_message (zip calls invs)) = (GroundMessage answer, st2) \<Longrightarrow>
   chat p st ms u s = (Some (answer, invs), s1, st2)"
  by (simp add: chat_def full_messages_def)

lemma chat_cases:
  obtains
    (fell_back) s1 st' where
      "s1 = s \<or> (\<exists>calls. s1 = snd (run_tool_calls calls u s []))"
      "chat p st ms u s = (fst (fallback ms u s1), snd (fallback ms u s1), st')"
  | (grounded) calls invs s1 answer st' where
      "run_tool_calls calls u s [] = (Some invs, s1)"
      "chat p st ms u s = (Some (answer, invs), s1, st')"
  | (plain) content st' where
      "chat p st ms u s = (Some (content, []), s, st')"
proof -
  obtain po st1 where po: "plan p st (full_messages ms) = (po, st1)" by (metis surj_pair)
  show ?thesis
  proof (cases po)
    case PlanFailed
    with po chat_plan_failed[of p st ms st1 u s] show ?thesis using fell_back by blast
  next
    case (PlanMessage content calls)
    with po have pm: "plan p st (full_messages ms) = (PlanMessage content calls, st1)" by simp
    show ?thesis
    proof (cases "calls = []")
      case True
      with pm chat_plain[of p st ms content st1 u s] show ?thesis using plain by blast
    next
      case False
      obtain r s1 where r: "run_tool_calls calls u s [] = (r, s1)" by (metis surj_pair)
      then have s1: "s1 = snd (run_tool_calls calls u s [])" by simp
      show ?thesis
      proof (cases r)
        case None
        with r chat_loop_raised[OF pm False, of u s s1] s1
        show ?thesis using fell_back by blast
      next
        case (Some invs)
        obtain go st2 where go: "ground p st1 (full_messages ms
               @ [AssistantCalls (case content of None \<Rightarrow> [] | Some c \<Rightarrow> c) calls]
               @ map tool_message (zip calls invs)) = (go, st2)"
          by (metis surj_pair)
        show ?thesis
        proof (cases go)
          case GroundFailed
          with go chat_ground_failed[OF pm False, of u s invs s1 st2] r Some s1
          show ?thesis using fell_back by blast
        next
          case (GroundMessage answer)
          with go chat_grounded[OF pm False, of u s invs s1 answer st2] r Some
          show ?thesis using grounded by blast
        qed
      qed
    qed
  qed
qed

lemma chat_outcome:
  assumes "chat p st ms u s = (Some (reply, invs), s', st')"
  shows "list_all has_outcome invs"
proof (cases rule: chat_cases[where s = s and u = u and p = p and st = st and ms = ms])
  case (fell_back s1 st'')
  with assms have "fallback ms u s1 = (Some (reply, invs), s')"
    by (simp add: prod_eq_iff)
  then show ?thesis by (rule fallback_outcome)
next
  case (grounded calls invs' s1 answer st'')
  with assms have "invs' = invs" by simp
  with grounded(1) run_tool_calls_outcome[of calls u s "[]" invs s1] show ?thesis by simp
next
  case (plain content st'')
  with assms show ?thesis by simp
qed

lemma tasks_only_refl: "tasks_only s s"
  by (simp add: tasks_only_def)

lemma tasks_only_trans: "tasks_only s s1 \<Longrightarrow> tasks_only s1 s2 \<Longrightarrow> tasks_only s s2"
  by (simp add: tasks_only_def)

lemma create_task_frame: "tasks_only s (snd (create_task title u s d))"
  by (simp add: create_task_def Let_def tasks_only_def)

lemma list_tasks_frame: "tasks_only s (snd (list_tasks u s c))"
  by (simp add: list_tasks_def Let_def tasks_only_def)

lemma update_task_frame: "tasks_only s (snd (update_task i u s t d c))"
  by (simp add: update_task_def Let_def store_task_def tasks_only_def split: list.split)

lemma delete_task_frame: "tasks_only s (snd (delete_task i u s))"
  by (simp add: delete_task_def tasks_only_def split: list.split)

lemma call_frames:
  "tasks_only s (snd (call_create_task a u s))"
  "tasks_only s (snd (call_list_tasks a u s))"
  "tasks_only s (snd (call_update_task a u s))"
  "tasks_only s (snd (call_delete_task a u s))"
  using tasks_only_refl[of s] create_task_frame list_tasks_frame update_task_frame
    delete_task_frame
  by (simp_all add: call_create_task_def call_list_tasks_def call_update_task_def
        call_delete_task_def split: option.split jval.split)

lemma execute_tool_frame: "tasks_only s (snd (execute_tool name a u s))"
proof (cases "map_of tool_map name")
  case None
  then show ?thesis using tasks_only_refl by (simp add: execute_tool_def)
next
  case (Some f)
  obtain r s1 where r: "f a u s = (r, s1)" by (metis surj_pair)
  from tool_map_cases[OF Some] call_frames[of s a u] have "tasks_only s (snd (f a u s))"
    by auto
  with Some r show ?thesis
    by (cases r) (simp_all add: execute_tool_def)
qed

lemma run_tool_calls_frame: "tasks_only s (snd (run_tool_calls calls u s acc))"
proof (induction calls arbitrary: s acc)
  case Nil
  then show ?case by (simp add: tasks_only_refl)
next
  case (Cons tc tcs)
  show ?case
  proof (cases "\<exists>tool_args. tc_arguments tc = Some (JObj tool_args)")
    case True
    then obtain tool_args where a: "tc_arguments tc = Some (JObj tool_args)" by blast
    obtain outputs error s1 where
      e: "execute_tool (tc_name tc) tool_args u s = ((outputs, error), s1)"
      by (metis surj_pair)
    from execute_tool_frame[of s "tc_name tc" tool_args u] e have "tasks_only s s1" by simp
    from tasks_only_trans[OF this Cons.IH] a e show ?thesis by simp
  next
    case False
    then have "run_tool_calls (tc # tcs) u s acc = (None, s)"
      by (auto split: option.splits jval.splits)
    then show ?thesis by (simp add: tasks_only_refl)
  qed
qed

lemma fallback_frame: "tasks_only s (snd (fallback ms u s))"
proof -
  have c: "tasks_only s (snd (create_task t u s None))" for t by (rule create_task_frame)
  have l: "tasks_only s (snd (list_tasks u s None))" by (rule list_tasks_frame)
  obtain rc sc where rc: "create_task (extract_title (if ms = [] then [] else lower (snd (last ms)))) u s None = (rc, sc)"
    by (metis surj_pair)
  obtain rl sl where rl: "list_tasks u s None = (rl, sl)" by (metis surj_pair)
  from c[of "extract_title (if ms = [] then [] else lower (snd (last ms)))"] rc
  have sc: "tasks_only s sc" by simp
  from l rl have sl: "tasks_only s sl" by simp
  show ?thesis
    unfolding fallback_def Let_def rc rl
    using sc sl tasks_only_refl[of s] by (cases rc; cases rl) simp_all
qed

lemma chat_frame: "tasks_only s (fst (snd (chat p st ms u s)))"
proof (cases rule: chat_cases[where s = s and u = u and p = p and st = st and ms = ms])
  case (fell_back s1 st')
  from fell_back(1) run_tool_calls_frame[of s _ u "[]"] tasks_only_refl[of s]
  have "tasks_only s s1" by auto
  from tasks_only_trans[OF this fallback_frame[of s1 ms u]] fell_back(2)
  show ?thesis by simp
next
  case (grounded calls invs s1 answer st')
  with run_tool_calls_frame[of s calls u "[]"] show ?thesis by simp
next
  case (plain content st')
  then show ?thesis by (simp add: tasks_only_refl)
qed

section \<open>The audit trail\<close>

lemma add_message_logs:
  "add_message c r t s ti = (x, s') \<Longrightarrow> tool_invocation_logs s' = tool_invocation_logs s"
  by (auto simp: add_message_def Let_def split: option.splits if_splits)

lemma create_conversation_logs:
  "create_conversation u s = (c, s') \<Longrightarrow> tool_invocation_logs s' = tool_invocation_logs s"
  by (auto simp: create_conversation_def Let_def)

lemma chat_logs:
  "chat p st ms u s = (out, s', st') \<Longrightarrow> tool_invocation_logs s' = tool_invocation_logs s"
  using chat_frame[of s p st ms u] by (simp add: tasks_only_def)

lemma log_tool_invocation_appends:
  assumes "log_tool_invocation u name inputs outputs (err = None) err s mid = (r, s')"
    and "case err of Some e \<Rightarrow> True
         | None \<Rightarrow> (case outputs of None \<Rightarrow> False | Some v \<Rightarrow> truthy v)"
  shows "\<exists>new. tool_invocation_logs s' = tool_invocation_logs s @ new
               \<and> list_all audit_invariant new"
proof (cases r)
  case None
  with assms(1) have "s' = s"
    by (auto simp: log_tool_invocation_def Let_def split: if_splits)
  then show ?thesis by simp
next
  case (Some l)
  with assms have "tool_invocation_logs s' = tool_invocation_logs s @ [l] \<and> audit_invariant l"
    by (auto simp: log_tool_invocation_def Let_def audit_invariant_def
          split: if_splits option.splits)
  then show ?thesis by (intro exI[of _ "[l]"]) simp
qed

lemma log_tool_invocations_appends:
  "log_tool_invocations invs u mid s = (b, s') \<Longrightarrow> list_all has_outcome invs \<Longrightarrow>
   \<exists>new. tool_invocation_logs s' = tool_invocation_logs s @ new \<and> list_all audit_invariant new"
proof (induction invs arbitrary: s)
  case Nil
  then show ?case by simp
next
  case (Cons x xs)
  obtain r s1 where r: "log_tool_invocation u (inv_tool x) (inv_inputs x) (inv_outputs x)
       (inv_error x = None) (inv_error x) s (Some mid) = (r, s1)"
    by (metis surj_pair)
  from Cons.prems(2) have o: "case inv_error x of Some e \<Rightarrow> True
         | None \<Rightarrow> (case inv_outputs x of None \<Rightarrow> False | Some v \<Rightarrow> truthy v)"
    by (simp add: has_outcome_def)
  from log_tool_invocation_appends[OF r o] obtain new1 where
    n1: "tool_invocation_logs s1 = tool_invocation_logs s @ new1" "list_all audit_invariant new1"
    by blast
  show ?case
  proof (cases r)
    case None
    with Cons.prems(1) r have "s' = s1" by simp
    with n1 show ?thesis by blast
  next
    case (Some l)
    with Cons.prems(1) r have "log_tool_invocations xs u mid s1 = (b, s')" by simp
    from Cons.IH[OF this] Cons.prems(2) obtain new2 where
      "tool_invocation_logs s' = tool_invocation_logs s1 @ new2" "list_all audit_invariant new2"
      by auto
    with n1 show ?thesis by (intro exI[of _ "new1 @ new2"]) simp
  qed
qed


lemma route_tail:
  assumes u: "add_message cid ''user'' (Some msg) s0 None = (um, s1)"
    and l0: "tool_invocation_logs s0 = tool_invocation_logs s"
  shows "\<exists>new. tool_invocation_logs (snd
     (case (um, s1) of
        (None, s1) \<Rightarrow> (Inl (HTTPException 500 ''INTERNAL_ERROR''), s1)
      | (Some user_message, s1) \<Rightarrow>
         (case chat p st (hist @ [(''user'', msg)]) u s1 of
            (None, s2, st') \<Rightarrow> (Inl (HTTPException 500 ''AGENT_ERROR''), s2)
          | (Some (response_text, tool_invocations), s2, st') \<Rightarrow>
             (case add_message cid ''assistant'' response_text s2 (Some tool_invocations) of
                (None, s3) \<Rightarrow> (Inl (HTTPException 500 ''INTERNAL_ERROR''), s3)
              | (Some assistant_message, s3) \<Rightarrow>
                 (case log_tool_invocations tool_invocations u (m_id assistant_message) s3 of
                    (False, s4) \<Rightarrow> (Inl (HTTPException 500 ''INTERNAL_ERROR''), s4)
                  | (True, s4) \<Rightarrow>
                     (Inr \<lparr>resp_conversation_id = cid,
                           resp_message_id = m_id assistant_message,
                           resp_response = m_content assistant_message,
                           resp_tool_invocations = tool_invocations\<rparr>, s4))))))
      = tool_invocation_logs s @ new \<and> list_all audit_invariant new"
proof -
  from add_message_logs[OF u] l0 have l1: "tool_invocation_logs s1 = tool_invocation_logs s"
    by simp
  show ?thesis
  proof (cases um)
    case None
    with l1 show ?thesis by simp
  next
    case (Some user_message)
    obtain out s2 st' where c: "chat p st (hist @ [(''user'', msg)]) u s1 = (out, s2, st')"
      by (metis surj_pair)
    from chat_logs[OF c] l1 have l2: "tool_invocation_logs s2 = tool_invocation_logs s" by simp
    show ?thesis
    proof (cases out)
      case None
      with Some c l2 show ?thesis by simp
    next
      case out: (Some ri)
      obtain response_text invs where ri: "ri = (response_text, invs)" by (metis surj_pair)
      obtain am s3 where a: "add_message cid ''assistant'' response_text s2 (Some invs) = (am, s3)"
        by (metis surj_pair)
      from add_message_logs[OF a] l2 have l3: "tool_invocation_logs s3 = tool_invocation_logs s"
        by simp
      show ?thesis
      proof (cases am)
        case None
        with Some c out ri a l3 show ?thesis by simp
      next
        case am: (Some assistant_message)
        obtain b s4 where
          lg: "log_tool_invocations invs u (m_id assistant_message) s3 = (b, s4)"
          by (metis surj_pair)
        from c out ri
        have "chat p st (hist @ [(''user'', msg)]) u s1 = (Some (response_text, invs), s2, st')"
          by simp
        then have "list_all has_outcome invs" by (rule chat_outcome)
        from log_tool_invocations_appends[OF lg this] l3 obtain new where
          "tool_invocation_logs s4 = tool_invocation_logs s @ new" "list_all audit_invariant new"
          by auto
        with Some c out ri a am lg show ?thesis by (cases b) auto
      qed
    qed
  qed
qed

text \<open>
  C3. Whatever the provider answers and whatever the request and the store are, the
  endpoint only appends to the audit trail, and every record it appends satisfies the
  invariant: \<open>success\<close> holds exactly when the error message is absent and the outputs
  are present.
\<close>

theorem audit_records_satisfy_invariant:
  "\<exists>new. tool_invocation_logs (snd (chat_route p st request s u))
           = tool_invocation_logs s @ new
         \<and> list_all audit_invariant new"
proof (cases "req_message request = [] \<or> length (strip (req_message request)) = 0
              \<or> length (req_message request) > 10000")
  case True
  then have "snd (chat_route p st request s u) = s" by (auto simp: chat_route_def)
  then show ?thesis by simp
next
  case valid: False
  show ?thesis
  proof (cases "req_conversation_id request")
    case None
    obtain conversation s0 where cc: "create_conversation u s = (conversation, s0)"
      by (metis surj_pair)
    obtain um s1 where
      um: "add_message (c_id conversation) ''user'' (Some (req_message request)) s0 None = (um, s1)"
      by (metis surj_pair)
    from route_tail[OF um create_conversation_logs[OF cc],
           where p = p and st = st and hist = "[]" and u = u] valid None cc um
    show ?thesis by (simp add: chat_route_def)
  next
    case (Some cid)
    show ?thesis
    proof (cases "load_conversation_messages cid u s 50")
      case (Inl e)
      with valid Some have "snd (chat_route p st request s u) = s"
        by (simp add: chat_route_def)
      then show ?thesis by simp
    next
      case (Inr hist)
      obtain um s1 where
        um: "add_message cid ''user'' (Some (req_message request)) s None = (um, s1)"
        by (metis surj_pair)
      from route_tail[OF um refl, where p = p and st = st and hist = hist and u = u]
        valid Some Inr um
      show ?thesis by (simp add: chat_route_def)
    qed
  qed
qed


theorem audit_records_satisfy_invariant_witness:
  "map (\<lambda>l. (l_tool_name l, l_success l, l_error_message l, l_outputs l))
     (tool_invocation_logs (snd (chat_route failing_then_create 0
        \<lparr>req_conversation_id = None, req_message = ''finish 99 and buy milk''\<rparr> empty_db 7)))
   = [(''update_task'', False, Some ''Task 99 not found or does not belong to user'', None),
      (''create_task'', True, None,
       Some (JObj [(''task_id'', JInt 1), (''title'', JStr ''buy milk''),
                   (''description'', JNull), (''completed'', JBool False)]))]
   \<and> (\<exists>new. tool_invocation_logs (snd (chat_route failing_then_create 0
        \<lparr>req_conversation_id = None, req_message = ''finish 99 and buy milk''\<rparr> empty_db 7))
          = tool_invocation_logs empty_db @ new \<and> list_all audit_invariant new)"
proof -
  have "map (\<lambda>l. (l_tool_name l, l_success l, l_error_message l, l_outputs l))
     (tool_invocation_logs (snd (chat_route failing_then_create 0
        \<lparr>req_conversation_id = None, req_message = ''finish 99 and buy milk''\<rparr> empty_db 7)))
   = [(''update_task'', False, Some ''Task 99 not found or does not belong to user'', None),
      (''create_task'', True, None,
       Some (JObj [(''task_id'', JInt 1), (''title'', JStr ''buy milk''),
                   (''description'', JNull), (''completed'', JBool False)]))]"
    by code_simp
  with audit_records_satisfy_invariant[of failing_then_create 0
         "\<lparr>req_conversation_id = None, req_message = ''finish 99 and buy milk''\<rparr>" empty_db 7]
  show ?thesis by (intro conjI)
qed

section \<open>Tenant isolation\<close>

lemma filter_owned_own:
  "filter (owned i u) (filter (\<lambda>t. t_user_id t = u) xs) = filter (owned i u) xs"
  by (induction xs) (auto simp: owned_def)

lemma others_replace:
  "filter (\<lambda>t. t_user_id t \<noteq> u) (map (\<lambda>t. if owned i u t then t' else t) xs)
     = filter (\<lambda>t. t_user_id t \<noteq> u) xs" if "t_user_id t' = u"
  using that by (induction xs) (auto simp: owned_def)

lemma others_remove:
  "filter (\<lambda>t. t_user_id t \<noteq> u) (filter (\<lambda>t. \<not> owned i u t) xs)
     = filter (\<lambda>t. t_user_id t \<noteq> u) xs"
  by (induction xs) (auto simp: owned_def)

lemma others_store_task: "t_user_id t' = u \<Longrightarrow> others u (store_task i u t' s) = others u s"
  by (simp add: others_def store_task_def others_replace)

lemma create_task_others: "others u (snd (create_task title u s d)) = others u s"
  by (simp add: create_task_def Let_def others_def)

lemma list_tasks_others: "others u (snd (list_tasks u s c)) = others u s"
  by (simp add: list_tasks_def Let_def)

lemma found_is_own: "filter (owned i u) xs = [t] \<Longrightarrow> t_user_id t = u"
proof -
  assume "filter (owned i u) xs = [t]"
  then have "t \<in> set (filter (owned i u) xs)" by simp
  then show ?thesis by (simp add: owned_def)
qed

lemma update_task_others: "others u (snd (update_task i u s title d c)) = others u s"
proof (cases "filter (owned i u) (tasks s)")
  case Nil
  then show ?thesis by (simp add: update_task_def)
next
  case (Cons t ts)
  show ?thesis
  proof (cases ts)
    case Nil
    with Cons have "t_user_id t = u" using found_is_own by blast
    then have "others u (store_task i u (t\<lparr>t_title := a, t_description := b, t_completed := e\<rparr>) s)
                = others u s" for a b e
      by (simp add: others_store_task)
    moreover have "others u (store_task i u (t\<lparr>t_title := a\<rparr>) s) = others u s" for a
      using \<open>t_user_id t = u\<close> by (simp add: others_store_task)
    moreover have "others u (store_task i u t' s) = others u s" if "t_user_id t' = u" for t'
      using that by (rule others_store_task)
    ultimately show ?thesis
      using Cons Nil \<open>t_user_id t = u\<close>
      by (simp add: update_task_def Let_def split: option.split)
  next
    case (Cons t2 ts2)
    with \<open>filter (owned i u) (tasks s) = t # ts\<close> show ?thesis by (simp add: update_task_def)
  qed
qed

lemma others_remove_conj:
  "filter (\<lambda>t. \<not> owned i u t \<and> t_user_id t \<noteq> u) xs = filter (\<lambda>t. t_user_id t \<noteq> u) xs"
  by (rule filter_cong) (auto simp: owned_def)

lemma delete_task_others: "others u (snd (delete_task i u s)) = others u s"
  by (simp add: delete_task_def others_def others_remove_conj split: list.split)


lemma filter_owned_conj:
  "filter (\<lambda>t. t_user_id t = u \<and> owned i u t) xs = filter (owned i u) xs"
  by (rule filter_cong) (auto simp: owned_def)

lemma own_replace:
  "filter (\<lambda>t. t_user_id t = u) (map (\<lambda>t. if owned i u t then t' else t) xs)
     = map (\<lambda>t. if owned i u t then t' else t) (filter (\<lambda>t. t_user_id t = u) xs)"
  if "t_user_id t' = u"
  using that by (induction xs) (auto simp: owned_def)

lemma own_remove:
  "filter (\<lambda>t. t_user_id t = u) (filter (\<lambda>t. \<not> owned i u t) xs)
     = filter (\<lambda>t. \<not> owned i u t) (filter (\<lambda>t. t_user_id t = u) xs)"
  by (induction xs) auto

lemma own_view_store_task:
  "t_user_id t' = u \<Longrightarrow> own_view u (store_task i u t' s) = store_task i u t' (own_view u s)"
  by (simp add: own_view_def store_task_def own_replace)

lemma create_task_own_view:
  "create_task title u (own_view u s) d
     = (fst (create_task title u s d), own_view u (snd (create_task title u s d)))"
  by (simp add: create_task_def Let_def own_view_def)

lemma list_tasks_own_view:
  "list_tasks u (own_view u s) c
     = (fst (list_tasks u s c), own_view u (snd (list_tasks u s c)))"
  by (simp add: list_tasks_def Let_def own_view_def)

lemma delete_task_own_view:
  "delete_task i u (own_view u s)
     = (fst (delete_task i u s), own_view u (snd (delete_task i u s)))"
proof -
  have f: "filter (owned i u) (tasks (own_view u s)) = filter (owned i u) (tasks s)"
    by (simp add: own_view_def filter_owned_conj)
  show ?thesis
    unfolding delete_task_def f
    by (simp add: own_view_def conj_commute split: list.split)
qed

lemma update_task_own_view:
  "update_task i u (own_view u s) title d c
     = (fst (update_task i u s title d c), own_view u (snd (update_task i u s title d c)))"
proof -
  have f: "filter (owned i u) (tasks (own_view u s)) = filter (owned i u) (tasks s)"
    by (simp add: own_view_def filter_owned_conj)
  show ?thesis
  proof (cases "filter (owned i u) (tasks s)")
    case Nil
    then show ?thesis unfolding update_task_def f by simp
  next
    case (Cons t ts)
    show ?thesis
    proof (cases ts)
      case Nil
      with Cons have o: "t_user_id t = u" using found_is_own by blast
      have st: "own_view u (store_task i u t' s) = store_task i u t' (own_view u s)"
        if "t_user_id t' = u" for t'
        using that by (rule own_view_store_task)
      show ?thesis
        unfolding update_task_def f Cons Nil
        using o by (simp add: Let_def st split: option.split)
    next
      case (Cons t2 ts2)
      with \<open>filter (owned i u) (tasks s) = t # ts\<close> show ?thesis
        unfolding update_task_def f by simp
    qed
  qed
qed


lemma call_others:
  "others u (snd (call_create_task a u s)) = others u s"
  "others u (snd (call_list_tasks a u s)) = others u s"
  "others u (snd (call_update_task a u s)) = others u s"
  "others u (snd (call_delete_task a u s)) = others u s"
  by (simp_all add: call_create_task_def call_list_tasks_def call_update_task_def
        call_delete_task_def create_task_others list_tasks_others update_task_others
        delete_task_others split: option.split jval.split)

lemma call_own_view:
  "call_create_task a u (own_view u s)
     = (fst (call_create_task a u s), own_view u (snd (call_create_task a u s)))"
  "call_list_tasks a u (own_view u s)
     = (fst (call_list_tasks a u s), own_view u (snd (call_list_tasks a u s)))"
  "call_update_task a u (own_view u s)
     = (fst (call_update_task a u s), own_view u (snd (call_update_task a u s)))"
  "call_delete_task a u (own_view u s)
     = (fst (call_delete_task a u s), own_view u (snd (call_delete_task a u s)))"
  by (simp_all add: call_create_task_def call_list_tasks_def call_update_task_def
        call_delete_task_def create_task_own_view list_tasks_own_view update_task_own_view
        delete_task_own_view split: option.split jval.split)

lemma execute_tool_others: "others u (snd (execute_tool name a u s)) = others u s"
proof (cases "map_of tool_map name")
  case None
  then show ?thesis by (simp add: execute_tool_def)
next
  case (Some f)
  obtain r s1 where r: "f a u s = (r, s1)" by (metis surj_pair)
  from tool_map_cases[OF Some] call_others[of u a s] have "others u (snd (f a u s)) = others u s"
    by auto
  with Some r show ?thesis by (cases r) (simp_all add: execute_tool_def)
qed

lemma execute_tool_own_view:
  "execute_tool name a u (own_view u s)
     = (fst (execute_tool name a u s), own_view u (snd (execute_tool name a u s)))"
proof (cases "map_of tool_map name")
  case None
  then show ?thesis by (simp add: execute_tool_def)
next
  case (Some f)
  obtain r s1 where r: "f a u s = (r, s1)" by (metis surj_pair)
  from tool_map_cases[OF Some] call_own_view[of a u s]
  have "f a u (own_view u s) = (fst (f a u s), own_view u (snd (f a u s)))" by auto
  with Some r show ?thesis by (cases r) (simp_all add: execute_tool_def)
qed

lemma bind_error_user_id:
  "''user_id'' \<in> fst ` set a \<Longrightarrow> bind_error fname a required optional \<noteq> None"
proof -
  assume "''user_id'' \<in> fst ` set a"
  then have "''user_id'' \<in> set (filter (\<lambda>k. k \<in> set [''user_id'', ''db'']) (map fst a))"
    by auto
  then have "filter (\<lambda>k. k \<in> set [''user_id'', ''db'']) (map fst a) \<noteq> []"
    by (metis empty_iff empty_set)
  then show ?thesis
    by (cases "filter (\<lambda>k. k \<in> set [''user_id'', ''db'']) (map fst a)")
       (simp_all add: bind_error_def)
qed

lemma execute_tool_rejects_user_id:
  assumes "''user_id'' \<in> fst ` set a"
  shows "\<exists>e. execute_tool name a u s = ((None, Some e), s)"
proof (cases "map_of tool_map name")
  case None
  then show ?thesis by (simp add: execute_tool_def)
next
  case (Some f)
  from bind_error_user_id[OF assms] obtain e1 e2 e3 e4 where
    "bind_error ''create_task'' a [''title''] [''description''] = Some e1"
    "bind_error ''list_tasks'' a [] [''completed''] = Some e2"
    "bind_error ''update_task'' a [''task_id''] [''title'', ''description'', ''completed'']
       = Some e3"
    "bind_error ''delete_task'' a [''task_id''] [] = Some e4"
    by (metis not_None_eq)
  then have "\<exists>e. f a u s = (Inl e, s)"
    using tool_map_cases[OF Some]
    by (auto simp: call_create_task_def call_list_tasks_def call_update_task_def
          call_delete_task_def)
  with Some show ?thesis by (auto simp: execute_tool_def)
qed


lemma run_tool_calls_own_view:
  "run_tool_calls calls u (own_view u s) acc
     = (fst (run_tool_calls calls u s acc), own_view u (snd (run_tool_calls calls u s acc)))"
proof (induction calls arbitrary: s acc)
  case Nil
  then show ?case by simp
next
  case (Cons tc tcs)
  show ?case
  proof (cases "\<exists>tool_args. tc_arguments tc = Some (JObj tool_args)")
    case True
    then obtain tool_args where a: "tc_arguments tc = Some (JObj tool_args)" by blast
    obtain outputs error s1 where
      e: "execute_tool (tc_name tc) tool_args u s = ((outputs, error), s1)"
      by (metis surj_pair)
    with execute_tool_own_view[of "tc_name tc" tool_args u s]
    have e': "execute_tool (tc_name tc) tool_args u (own_view u s) = ((outputs, error), own_view u s1)"
      by simp
    from a e e' Cons.IH[of s1] show ?thesis by simp
  next
    case False
    then have "run_tool_calls (tc # tcs) u s' acc = (None, s')" for s'
      by (auto split: option.splits jval.splits)
    then show ?thesis by simp
  qed
qed

lemma run_tool_calls_others: "others u (snd (run_tool_calls calls u s acc)) = others u s"
proof (induction calls arbitrary: s acc)
  case Nil
  then show ?case by simp
next
  case (Cons tc tcs)
  show ?case
  proof (cases "\<exists>tool_args. tc_arguments tc = Some (JObj tool_args)")
    case True
    then obtain tool_args where a: "tc_arguments tc = Some (JObj tool_args)" by blast
    obtain outputs error s1 where
      e: "execute_tool (tc_name tc) tool_args u s = ((outputs, error), s1)"
      by (metis surj_pair)
    from execute_tool_others[of u "tc_name tc" tool_args s] e have "others u s1 = others u s"
      by simp
    with a e Cons.IH[of s1] show ?thesis by simp
  next
    case False
    then have "run_tool_calls (tc # tcs) u s acc = (None, s)"
      by (auto split: option.splits jval.splits)
    then show ?thesis by simp
  qed
qed

lemma fallback_others: "others u (snd (fallback ms u s)) = others u s"
proof -
  let ?t = "extract_title (if ms = [] then [] else lower (snd (last ms)))"
  obtain rc sc where rc: "create_task ?t u s None = (rc, sc)" by (metis surj_pair)
  obtain rl sl where rl: "list_tasks u s None = (rl, sl)" by (metis surj_pair)
  from create_task_others[of u ?t s None] rc have sc: "others u sc = others u s" by simp
  from list_tasks_others[of u s None] rl have sl: "others u sl = others u s" by simp
  show ?thesis
    unfolding fallback_def Let_def rc rl
    using sc sl by (cases rc; cases rl) simp_all
qed

lemma fallback_own_view:
  "fallback ms u (own_view u s) = (fst (fallback ms u s), own_view u (snd (fallback ms u s)))"
proof -
  let ?t = "extract_title (if ms = [] then [] else lower (snd (last ms)))"
  obtain rc sc where rc: "create_task ?t u s None = (rc, sc)" by (metis surj_pair)
  obtain rl sl where rl: "list_tasks u s None = (rl, sl)" by (metis surj_pair)
  from create_task_own_view[of ?t u s None] rc
  have rc': "create_task ?t u (own_view u s) None = (rc, own_view u sc)" by simp
  from list_tasks_own_view[of u s None] rl
  have rl': "list_tasks u (own_view u s) None = (rl, own_view u sl)" by simp
  show ?thesis
    unfolding fallback_def Let_def rc rl rc' rl'
    by (cases rc; cases rl) simp_all
qed


lemma chat_others: "others u (fst (snd (chat p st ms u s))) = others u s"
proof (cases rule: chat_cases[where s = s and u = u and p = p and st = st and ms = ms])
  case (fell_back s1 st')
  from fell_back(1) run_tool_calls_others[of u _ s "[]"] have "others u s1 = others u s"
    by auto
  with fallback_others[of u ms s1] fell_back(2) show ?thesis by simp
next
  case (grounded calls invs s1 answer st')
  with run_tool_calls_others[of u calls s "[]"] show ?thesis by simp
next
  case (plain content st')
  then show ?thesis by simp
qed

lemma chat_own_view:
  "chat p st ms u (own_view u s)
     = (fst (chat p st ms u s), own_view u (fst (snd (chat p st ms u s))),
        snd (snd (chat p st ms u s)))"
proof -
  obtain po st1 where po: "plan p st (full_messages ms) = (po, st1)" by (metis surj_pair)
  show ?thesis
  proof (cases po)
    case PlanFailed
    with po have pf: "plan p st (full_messages ms) = (PlanFailed, st1)" by simp
    from chat_plan_failed[OF pf, of u s] chat_plan_failed[OF pf, of u "own_view u s"]
      fallback_own_view[of ms u s]
    show ?thesis by simp
  next
    case (PlanMessage content calls)
    with po have pm: "plan p st (full_messages ms) = (PlanMessage content calls, st1)" by simp
    show ?thesis
    proof (cases "calls = []")
      case True
      with pm chat_plain[of p st ms content st1 u s]
        chat_plain[of p st ms content st1 u "own_view u s"]
      show ?thesis by simp
    next
      case False
      obtain r s1 where r: "run_tool_calls calls u s [] = (r, s1)" by (metis surj_pair)
      with run_tool_calls_own_view[of calls u s "[]"]
      have r': "run_tool_calls calls u (own_view u s) [] = (r, own_view u s1)" by simp
      show ?thesis
      proof (cases r)
        case None
        from chat_loop_raised[OF pm False, of u s s1]
          chat_loop_raised[OF pm False, of u "own_view u s" "own_view u s1"]
          r r' None fallback_own_view[of ms u s1]
        show ?thesis by simp
      next
        case (Some invs)
        obtain go st2 where go: "ground p st1 (full_messages ms
               @ [AssistantCalls (case content of None \<Rightarrow> [] | Some c \<Rightarrow> c) calls]
               @ map tool_message (zip calls invs)) = (go, st2)"
          by (metis surj_pair)
        show ?thesis
        proof (cases go)
          case GroundFailed
          with go have gf: "ground p st1 (full_messages ms
               @ [AssistantCalls (case content of None \<Rightarrow> [] | Some c \<Rightarrow> c) calls]
               @ map tool_message (zip calls invs)) = (GroundFailed, st2)" by simp
          from chat_ground_failed[OF pm False _ gf, of u s s1]
            chat_ground_failed[OF pm False _ gf, of u "own_view u s" "own_view u s1"]
            r r' Some fallback_own_view[of ms u s1]
          show ?thesis by simp
        next
          case (GroundMessage answer)
          with go have gm: "ground p st1 (full_messages ms
               @ [AssistantCalls (case content of None \<Rightarrow> [] | Some c \<Rightarrow> c) calls]
               @ map tool_message (zip calls invs)) = (GroundMessage answer, st2)" by simp
          from chat_grounded[OF pm False _ gm, of u s s1]
            chat_grounded[OF pm False _ gm, of u "own_view u s" "own_view u s1"]
            r r' Some
          show ?thesis by simp
        qed
      qed
    qed
  qed
qed

text \<open>
  C2. A tool run by the dispatcher for user \<open>u\<close> leaves the tasks of every other user as
  they are, and its result and its effect on the caller's tasks are the same as on the
  store without the other users' tasks, so it reads none of them. Arguments that carry a
  \<^verbatim>\<open>user_id\<close> entry never reach a tool: the call fails and the store is unchanged. The
  same holds for a whole run of \<^verbatim>\<open>chat\<close>, through the provider's tool calls and through
  the fallback.
\<close>

theorem tools_scoped_to_caller:
  "others u (snd (execute_tool name a u s)) = others u s
   \<and> execute_tool name a u (own_view u s)
       = (fst (execute_tool name a u s), own_view u (snd (execute_tool name a u s)))
   \<and> (''user_id'' \<in> fst ` set a \<longrightarrow> (\<exists>e. execute_tool name a u s = ((None, Some e), s)))
   \<and> others u (fst (snd (chat p st ms u s))) = others u s
   \<and> chat p st ms u (own_view u s)
       = (fst (chat p st ms u s), own_view u (fst (snd (chat p st ms u s))),
          snd (snd (chat p st ms u s)))"
  using execute_tool_others[of u name a s] execute_tool_own_view[of name a u s]
    execute_tool_rejects_user_id[of a name u s] chat_others[of u p st ms s]
    chat_own_view[of p st ms u s]
  by blast


theorem tools_scoped_to_caller_witness:
  "''user_id'' \<in> fst ` set forged_args
   \<and> (\<exists>e. execute_tool ''update_task'' forged_args 2 victim_db = ((None, Some e), victim_db))
   \<and> execute_tool ''update_task'' [(''task_id'', JInt 1), (''title'', JStr ''hacked'')] 2 victim_db
       = ((None, Some ''Task 1 not found or does not belong to user''), victim_db)
   \<and> execute_tool ''delete_task'' [(''task_id'', JInt 1)] 2 victim_db
       = ((None, Some ''Task 1 not found or does not belong to user''), victim_db)
   \<and> fst (execute_tool ''list_tasks'' [] 2 victim_db)
       = (Some (JObj [(''tasks'', JList []), (''total_count'', JInt 0)]), None)
   \<and> others 2 victim_db = tasks victim_db"
proof -
  have a: "''user_id'' \<in> fst ` set forged_args" by (simp add: forged_args_def)
  have b: "execute_tool ''update_task'' [(''task_id'', JInt 1), (''title'', JStr ''hacked'')] 2
             victim_db
           = ((None, Some ''Task 1 not found or does not belong to user''), victim_db)"
    by code_simp
  have c: "execute_tool ''delete_task'' [(''task_id'', JInt 1)] 2 victim_db
           = ((None, Some ''Task 1 not found or does not belong to user''), victim_db)"
    by code_simp
  have d: "fst (execute_tool ''list_tasks'' [] 2 victim_db)
           = (Some (JObj [(''tasks'', JList []), (''total_count'', JInt 0)]), None)"
    by code_simp
  have e: "others 2 victim_db = tasks victim_db" by code_simp
  have "''user_id'' \<in> fst ` set forged_args \<longrightarrow>
        (\<exists>e. execute_tool ''update_task'' forged_args 2 victim_db = ((None, Some e), victim_db))"
    using tools_scoped_to_caller
            [where u = 2 and name = "''update_task''" and a = forged_args and s = victim_db
               and p = unavailable and st = 0 and ms = "[]"]
    by blast
  with a have "\<exists>e. execute_tool ''update_task'' forged_args 2 victim_db
                 = ((None, Some e), victim_db)" by blast
  with a b c d e show ?thesis by (intro conjI)
qed

section \<open>The order of the tool calls\<close>








end
